theory Spec2Isabelle
  imports Main "HOL-Library.AList" "HOL-Library.Sublist"
    "HOL-Library.Char_ord" "HOL-Library.List_Lexorder"
begin

section \<open>Values and exceptions\<close>

text \<open>
  The client of \<^verbatim>\<open>src/polybridge/client.py\<close> works on decoded JSON: request payloads
  and response bodies are Python dicts, lists, strings, numbers, booleans and None.
  A dict is an association list in insertion order (a lookup takes the first binding of a
  key, an assignment to a present key keeps its place, a new key goes to the end, as
  Python's dict does). Values are trees: data decoded from JSON shares no sub-object,
  so in-place mutation of the source is modelled by returning the updated value.
  JSON numbers with a fraction (Python floats) are outside the model.
\<close>

datatype json =
    JNull
  | JBool bool
  | JInt int
  | JStr string
  | JList "json list"
  | JObj "(string \<times> json) list"

text \<open>
  Every \<^verbatim>\<open>raise\<close> of the source and every exception of a Python operation it uses is
  a value. \<open>ValueError\<close>, \<open>HTTPError\<close> and \<open>RuntimeError\<close> carry their message.
  \<open>TransportFailure\<close> stands for any exception of \<^verbatim>\<open>session.post\<close> itself
  (connection refused, timeout).
\<close>

datatype error =
    ValueError string
  | HTTPError string
  | RuntimeError string
  | TypeError
  | AttributeError
  | KeyError
  | JSONDecodeError
  | OverflowError
  | TransportFailure

subsection \<open>The Python operations the client applies to decoded JSON\<close>

text \<open>Truth value of an object: \<^verbatim>\<open>if x\<close>, \<^verbatim>\<open>not x\<close>.\<close>

fun truthy :: "json \<Rightarrow> bool" where
  "truthy JNull = False"
| "truthy (JBool b) = b"
| "truthy (JInt n) = (n \<noteq> 0)"
| "truthy (JStr s) = (s \<noteq> [])"
| "truthy (JList xs) = (xs \<noteq> [])"
| "truthy (JObj kvs) = (kvs \<noteq> [])"

text \<open>
  \<^verbatim>\<open>key in x\<close> for a string key: key membership in a dict, element membership in a list,
  substring test in a string, TypeError otherwise.
\<close>

fun py_contains :: "string \<Rightarrow> json \<Rightarrow> error + bool" where
  "py_contains k (JObj kvs) = Inr (map_of kvs k \<noteq> None)"
| "py_contains k (JList xs) = Inr (JStr k \<in> set xs)"
| "py_contains k (JStr s) = Inr (sublist k s)"
| "py_contains k _ = Inl TypeError"

text \<open>\<^verbatim>\<open>x[key]\<close> for a string key: only a dict can be indexed by a string.\<close>

fun py_getitem :: "json \<Rightarrow> string \<Rightarrow> error + json" where
  "py_getitem (JObj kvs) k = (case map_of kvs k of None \<Rightarrow> Inl KeyError | Some v \<Rightarrow> Inr v)"
| "py_getitem _ k = Inl TypeError"

text \<open>\<^verbatim>\<open>x.get(key, default)\<close>: a method of dict; any other JSON value has no \<^verbatim>\<open>get\<close>.\<close>

fun py_get :: "json \<Rightarrow> string \<Rightarrow> json \<Rightarrow> error + json" where
  "py_get (JObj kvs) k d = (case map_of kvs k of None \<Rightarrow> Inr d | Some v \<Rightarrow> Inr v)"
| "py_get _ k d = Inl AttributeError"

text \<open>\<^verbatim>\<open>x[key] = v\<close> for a string key: lists and strings refuse it with TypeError, as do
  the scalars.\<close>

fun py_setitem :: "json \<Rightarrow> string \<Rightarrow> json \<Rightarrow> error + json" where
  "py_setitem (JObj kvs) k v = Inr (JObj (AList.update k v kvs))"
| "py_setitem _ k v = Inl TypeError"

text \<open>
  Iterating a value (\<^verbatim>\<open>for e in x\<close>, \<^verbatim>\<open>list(x)\<close>, the argument of \<^verbatim>\<open>extend\<close>): a list
  gives its elements, a dict its keys, a string its characters; a scalar is not iterable.
\<close>

fun py_iter :: "json \<Rightarrow> error + json list" where
  "py_iter (JList xs) = Inr xs"
| "py_iter (JObj kvs) = Inr (map (\<lambda>kv. JStr (fst kv)) kvs)"
| "py_iter (JStr s) = Inr (map (\<lambda>c. JStr [c]) s)"
| "py_iter _ = Inl TypeError"

section \<open>Chunking\<close>

text \<open>
  \<^verbatim>\<open>range(0, stop, step)\<close>: a zero step raises ValueError, a negative step gives the
  empty range, a positive step gives \<open>0, step, 2 * step, ...\<close> below \<open>stop\<close>.
\<close>

definition py_range :: "nat \<Rightarrow> int \<Rightarrow> error + nat list" where
  "py_range stop step =
     (if step = 0 then Inl (ValueError ''range() arg 3 must not be zero'')
      else if step < 0 then Inr []
      else Inr (map (\<lambda>k. k * nat step) [0 ..< (stop + nat step - 1) div nat step]))"

text \<open>
  \<^verbatim>\<open>_chunk(sequence, size)\<close> (client.py, lines 151-155; Isabelle names cannot start with
  an underscore). The generator yields \<^verbatim>\<open>sequence[index : index + size]\<close> for every index
  of the range; the list of everything it yields is what the \<^verbatim>\<open>for\<close> loop of the caller
  sees, and the ValueError of a zero size is raised when the loop asks for the first chunk.
\<close>

definition chunk :: "'a list \<Rightarrow> int \<Rightarrow> error + 'a list list" where
  "chunk sequence n =
     (case py_range (length sequence) n of
        Inl e \<Rightarrow> Inl e
      | Inr indices \<Rightarrow> Inr (map (\<lambda>index. take (nat n) (drop index sequence)) indices))"

text \<open>
  The same batches by recursion on the sequence (for a positive size): the first \<open>m\<close>
  elements, then the batches of the rest. It is only used to reason about \<open>chunk\<close>.
\<close>

function slices :: "nat \<Rightarrow> 'a list \<Rightarrow> 'a list list" where
  "slices m xs = (if m = 0 \<or> xs = [] then [] else take m xs # slices m (drop m xs))"
  by pat_completeness auto
termination
  by (relation "measure (\<lambda>(m, xs). length xs)") auto

declare slices.simps [simp del]

section \<open>Merging responses\<close>

text \<open>
  One round of the loop of \<^verbatim>\<open>_merge_responses\<close> (lines 434-444) for the block name
  \<open>block\<close>: the result is the destination after the round, or the exception raised.
  \<^verbatim>\<open>destination[block]["rows"].extend(...)\<close> looks the method up before it evaluates the
  argument, so a destination without a \<^verbatim>\<open>rows\<close> list fails first.
\<close>

definition merge_block :: "string \<Rightarrow> json \<Rightarrow> json \<Rightarrow> error + json" where
  "merge_block block destination source =
     (case py_contains block source of
        Inl e \<Rightarrow> Inl e
      | Inr False \<Rightarrow> Inr destination
      | Inr True \<Rightarrow>
         (case py_getitem source block of
            Inl e \<Rightarrow> Inl e
          | Inr block_data \<Rightarrow>
             (case py_contains block destination of
                Inl e \<Rightarrow> Inl e
              | Inr False \<Rightarrow>
                 (case py_get block_data ''columns'' (JList []) of
                    Inl e \<Rightarrow> Inl e
                  | Inr columns \<Rightarrow>
                     (case py_get block_data ''rows'' (JList []) of
                        Inl e \<Rightarrow> Inl e
                      | Inr rows \<Rightarrow>
                         (case py_iter rows of
                            Inl e \<Rightarrow> Inl e
                          | Inr copied \<Rightarrow>
                              py_setitem destination block
                                (JObj [(''columns'', columns), (''rows'', JList copied)]))))
              | Inr True \<Rightarrow>
                 (case py_getitem destination block of
                    Inl e \<Rightarrow> Inl e
                  | Inr dest_block \<Rightarrow>
                     (case py_getitem dest_block ''rows'' of
                        Inl e \<Rightarrow> Inl e
                      | Inr (JList dest_rows) \<Rightarrow>
                         (case py_get block_data ''rows'' (JList []) of
                            Inl e \<Rightarrow> Inl e
                          | Inr rows \<Rightarrow>
                             (case py_iter rows of
                                Inl e \<Rightarrow> Inl e
                              | Inr more \<Rightarrow>
                                 (case py_setitem dest_block ''rows'' (JList (dest_rows @ more)) of
                                    Inl e \<Rightarrow> Inl e
                                  | Inr dest_block' \<Rightarrow> py_setitem destination block dest_block')))
                      | Inr _ \<Rightarrow> Inl AttributeError)))))"

fun merge_blocks :: "string list \<Rightarrow> json \<Rightarrow> json \<Rightarrow> error + json" where
  "merge_blocks [] destination source = Inr destination"
| "merge_blocks (block # blocks) destination source =
     (case merge_block block destination source of
        Inl e \<Rightarrow> Inl e
      | Inr destination' \<Rightarrow> merge_blocks blocks destination' source)"

definition known_blocks :: "string list" where
  "known_blocks = [''probabilities'', ''prices'', ''options_metrics'']"

text \<open>
  Lines 446-447: \<^verbatim>\<open>destination.setdefault("meta", source["meta"])\<close>. The method is looked
  up on the destination before \<^verbatim>\<open>source["meta"]\<close> is evaluated.
\<close>

definition merge_meta :: "json \<Rightarrow> json \<Rightarrow> error + json" where
  "merge_meta destination source =
     (case py_contains ''meta'' source of
        Inl e \<Rightarrow> Inl e
      | Inr False \<Rightarrow> Inr destination
      | Inr True \<Rightarrow>
         (case destination of
            JObj kvs \<Rightarrow>
             (case py_getitem source ''meta'' of
                Inl e \<Rightarrow> Inl e
              | Inr meta \<Rightarrow>
                 (if map_of kvs ''meta'' \<noteq> None then Inr destination
                  else Inr (JObj (AList.update ''meta'' meta kvs))))
          | _ \<Rightarrow> Inl AttributeError))"

text \<open>\<^verbatim>\<open>_merge_responses(destination, source)\<close>, lines 427-449.\<close>

definition merge_responses :: "json \<Rightarrow> json \<Rightarrow> error + json" where
  "merge_responses destination source =
     (if \<not> truthy destination then Inr source
      else
        (case merge_blocks known_blocks destination source of
           Inl e \<Rightarrow> Inl e
         | Inr destination' \<Rightarrow> merge_meta destination' source))"

text \<open>
  Reading a merged response: the rows of a block, when the response is a dict whose entry
  for the block is a dict with a \<^verbatim>\<open>rows\<close> list. A response in the shape of the API
  (every known block that is present has a \<^verbatim>\<open>rows\<close> list) is \<open>is_response\<close>.
\<close>

fun block_rows :: "json \<Rightarrow> string \<Rightarrow> json list option" where
  "block_rows (JObj kvs) block =
     (case map_of kvs block of
        Some (JObj block_data) \<Rightarrow>
          (case map_of block_data ''rows'' of Some (JList rows) \<Rightarrow> Some rows | _ \<Rightarrow> None)
      | _ \<Rightarrow> None)"
| "block_rows _ block = None"

fun is_response :: "json \<Rightarrow> bool" where
  "is_response (JObj kvs) =
     list_all (\<lambda>block. map_of kvs block = None \<or> block_rows (JObj kvs) block \<noteq> None) known_blocks"
| "is_response _ = False"

section \<open>The request helper\<close>

text \<open>
  What the client reads of a \<^verbatim>\<open>requests\<close> response: the status code, the decoded body
  (\<^verbatim>\<open>response.json()\<close>, \<open>None\<close> when decoding raises), the raw text, and the text of the
  HTTPError that \<^verbatim>\<open>raise_for_status()\<close> raises for a 4xx or 5xx status.
\<close>

record response =
  resp_status :: nat
  resp_json :: "json option"
  resp_text :: string
  http_error_msg :: string

text \<open>
  \<^verbatim>\<open>str(x)\<close> and the \<^verbatim>\<open>{x}\<close> of an f-string: a string is itself; any other value prints
  as its \<^verbatim>\<open>repr\<close>, which is a function of the Python runtime and a parameter here.
\<close>

definition py_str :: "(json \<Rightarrow> string) \<Rightarrow> json \<Rightarrow> string" where
  "py_str repr v = (case v of JStr s \<Rightarrow> s | _ \<Rightarrow> repr v)"

text \<open>
  Lines 96-110 of \<^verbatim>\<open>_post\<close>: the error detail extracted from the body. Every exception
  inside the \<^verbatim>\<open>try\<close> falls back to the first 500 characters of the raw text.
\<close>

definition error_detail :: "(json \<Rightarrow> string) \<Rightarrow> response \<Rightarrow> string" where
  "error_detail repr r =
     (case resp_json r of
        None \<Rightarrow> take 500 (resp_text r)
      | Some error_data \<Rightarrow>
         (case py_contains ''error'' error_data of
            Inl e \<Rightarrow> take 500 (resp_text r)
          | Inr False \<Rightarrow> ''''
          | Inr True \<Rightarrow>
             (case py_getitem error_data ''error'' of
                Inl e \<Rightarrow> take 500 (resp_text r)
              | Inr (JObj error_obj) \<Rightarrow>
                  ''Code: ''
                  @ py_str repr (case map_of error_obj ''code'' of
                                   None \<Rightarrow> JStr ''UNKNOWN'' | Some v \<Rightarrow> v)
                  @ '', Message: ''
                  @ py_str repr (case map_of error_obj ''message'' of
                                   None \<Rightarrow> JStr ''No message'' | Some v \<Rightarrow> v)
                  @ (case map_of error_obj ''detail'' of
                       None \<Rightarrow> ''''
                     | Some v \<Rightarrow> '', Detail: '' @ py_str repr v)
              | Inr error_obj \<Rightarrow> py_str repr error_obj)))"

text \<open>
  Lines 112-129: the status check, then the error envelope of the decoded body.
  \<^verbatim>\<open>raise_for_status\<close> raises exactly for a status from 400 to 599.
\<close>

definition post_result :: "(json \<Rightarrow> string) \<Rightarrow> response \<Rightarrow> error + json" where
  "post_result repr r =
     (if 400 \<le> resp_status r \<and> resp_status r < 600 then
        Inl (HTTPError (http_error_msg r @ '' | '' @
               (if error_detail repr r \<noteq> [] then error_detail repr r
                else take 500 (resp_text r))))
      else
        (case resp_json r of
           None \<Rightarrow> Inl JSONDecodeError
         | Some data \<Rightarrow>
            (case py_contains ''error'' data of
               Inl e \<Rightarrow> Inl e
             | Inr False \<Rightarrow> Inr data
             | Inr True \<Rightarrow>
                (case py_getitem data ''error'' of
                   Inl e \<Rightarrow> Inl e
                 | Inr error_obj \<Rightarrow>
                    Inl (RuntimeError (''API returned error: '' @
                      py_str repr
                        (case error_obj of
                           JObj kvs \<Rightarrow>
                             (case map_of kvs ''message'' of
                                None \<Rightarrow> JStr (py_str repr error_obj)
                              | Some message \<Rightarrow> message)
                         | _ \<Rightarrow> JStr (py_str repr error_obj))))))))"

text \<open>
  The client object (\<^verbatim>\<open>base_url\<close>, \<^verbatim>\<open>timeout\<close>) and the arguments of one
  \<^verbatim>\<open>session.post(url, json=payload, timeout=self.timeout)\<close>.
\<close>

record client =
  base_url :: string
  timeout :: int

record request =
  req_url :: string
  req_json :: json
  req_timeout :: int

text \<open>
  The world outside the client: the state of the remote service, and the requests sent so
  far, in order. The service answers a request from its state with a response or with a
  transport exception, and moves to a new state.
\<close>

record 's world =
  server :: 's
  sent :: "request list"

definition build_request :: "client \<Rightarrow> string \<Rightarrow> json \<Rightarrow> request" where
  "build_request c endpoint payload =
     \<lparr>req_url = base_url c @ ''/'' @ dropWhile (\<lambda>ch. ch = CHR ''/'') endpoint,
      req_json = payload,
      req_timeout = timeout c\<rparr>"

section \<open>Timestamps\<close>

text \<open>
  A \<^verbatim>\<open>datetime\<close> object: its calendar fields and \<open>utcoffset\<close>, the value of
  \<^verbatim>\<open>dt.utcoffset()\<close> in microseconds (\<open>None\<close> for a naive datetime).
\<close>

record datetime =
  year :: nat
  month :: nat
  day :: nat
  hour :: nat
  minute :: nat
  second :: nat
  microsecond :: nat
  utcoffset :: "int option"

subsection \<open>The proleptic Gregorian calendar of the datetime module\<close>

definition is_leap :: "nat \<Rightarrow> bool" where
  "is_leap y = (y mod 4 = 0 \<and> (y mod 100 \<noteq> 0 \<or> y mod 400 = 0))"

definition days_before_year :: "nat \<Rightarrow> nat" where
  "days_before_year y = (y - 1) * 365 + (y - 1) div 4 - (y - 1) div 100 + (y - 1) div 400"

definition days_in_month :: "nat \<Rightarrow> nat \<Rightarrow> nat" where
  "days_in_month y m =
     (if m = 2 \<and> is_leap y then 29
      else [31, 28, 31, 30, 31, 30, 31, 31, 30, 31, 30, 31] ! (m - 1))"

definition days_before_month :: "nat \<Rightarrow> nat \<Rightarrow> nat" where
  "days_before_month y m =
     [0, 31, 59, 90, 120, 151, 181, 212, 243, 273, 304, 334] ! (m - 1)
     + (if 2 < m \<and> is_leap y then 1 else 0)"

text \<open>\<^verbatim>\<open>toordinal\<close>: day 1 is 0001-01-01.\<close>

definition ymd2ord :: "nat \<Rightarrow> nat \<Rightarrow> nat \<Rightarrow> nat" where
  "ymd2ord y m d = days_before_year y + days_before_month y m + d"

text \<open>
  \<^verbatim>\<open>fromordinal\<close>, by the 400-, 100-, 4- and 1-year cycles (146097, 36524, 1461 and 365
  days), as the datetime module computes it.
\<close>

definition ord2ymd :: "nat \<Rightarrow> nat \<times> nat \<times> nat" where
  "ord2ymd ordinal =
     (let n0 = ordinal - 1;
          n400 = n0 div 146097; r400 = n0 mod 146097;
          n100 = r400 div 36524; r100 = r400 mod 36524;
          n4 = r100 div 1461; r4 = r100 mod 1461;
          n1 = r4 div 365; n = r4 mod 365;
          y = n400 * 400 + 1 + n100 * 100 + n4 * 4 + n1
      in if n1 = 4 \<or> n100 = 4 then (y - 1, 12, 31)
         else
           (let m0 = (n + 50) div 32;
                m = (if n < days_before_month y m0 then m0 - 1 else m0)
            in (y, m, n - days_before_month y m + 1)))"

subsection \<open>Conversion to UTC and formatting\<close>

text \<open>
  \<^verbatim>\<open>dt.astimezone(timezone.utc)\<close>: the offset of the datetime (for a naive one, the offset
  the system's local time zone gives it, the parameter \<open>local\<close>) is subtracted on the
  microsecond count since day 0, and the result is rebuilt with zero offset. A result outside
  the days 1 to 3652059 (years 1 to 9999) raises OverflowError.
\<close>

definition astimezone_utc :: "(datetime \<Rightarrow> int) \<Rightarrow> datetime \<Rightarrow> error + datetime" where
  "astimezone_utc local dt =
     (let myoffset = (case utcoffset dt of None \<Rightarrow> local dt | Some off \<Rightarrow> off);
          total = ((int (ymd2ord (year dt) (month dt) (day dt)) * 86400
                    + int (hour dt) * 3600 + int (minute dt) * 60 + int (second dt)) * 1000000
                   + int (microsecond dt)) - myoffset;
          days = total div 86400000000;
          secs = (total mod 86400000000) div 1000000;
          us = (total mod 86400000000) mod 1000000
      in if 0 < days \<and> days \<le> 3652059 then
           (case ord2ymd (nat days) of
              (y, m, d) \<Rightarrow>
                Inr \<lparr>year = y, month = m, day = d,
                     hour = nat (secs div 3600), minute = nat ((secs mod 3600) div 60),
                     second = nat (secs mod 60), microsecond = nat us,
                     utcoffset = Some 0\<rparr>)
         else Inl OverflowError)"

text \<open>Decimal digits, and \<^verbatim>\<open>"%0wd" % n\<close>: at least \<open>w\<close> digits, padded with zeros.\<close>

definition digit_char :: "nat \<Rightarrow> char" where
  "digit_char d = ''0123456789'' ! d"

fun dec :: "nat \<Rightarrow> string" where
  "dec n = (if n < 10 then [digit_char n] else dec (n div 10) @ [digit_char (n mod 10)])"

declare dec.simps [simp del]

definition zpad :: "nat \<Rightarrow> nat \<Rightarrow> string" where
  "zpad w n = replicate (w - length (dec n)) (CHR ''0'') @ dec n"

text \<open>The UTC offset as \<^verbatim>\<open>isoformat\<close> prints it: \<^verbatim>\<open>+HH:MM\<close>, with seconds and
  microseconds only when they are not zero.\<close>

definition format_offset :: "int \<Rightarrow> string" where
  "format_offset off =
     (let a = nat \<bar>off\<bar>;
          hh = a div 3600000000;
          mm = (a mod 3600000000) div 60000000;
          ss = (a mod 60000000) div 1000000;
          us = a mod 1000000
      in (if off < 0 then ''-'' else ''+'') @ zpad 2 hh @ '':'' @ zpad 2 mm
         @ (if ss \<noteq> 0 \<or> us \<noteq> 0 then '':'' @ zpad 2 ss else '''')
         @ (if us \<noteq> 0 then ''.'' @ zpad 6 us else ''''))"

text \<open>\<^verbatim>\<open>dt.isoformat()\<close>: the fraction only when the microseconds are not zero, the offset
  only for an aware datetime.\<close>

definition isoformat :: "datetime \<Rightarrow> string" where
  "isoformat dt =
     zpad 4 (year dt) @ ''-'' @ zpad 2 (month dt) @ ''-'' @ zpad 2 (day dt) @ ''T''
     @ zpad 2 (hour dt) @ '':'' @ zpad 2 (minute dt) @ '':'' @ zpad 2 (second dt)
     @ (if microsecond dt \<noteq> 0 then ''.'' @ zpad 6 (microsecond dt) else '''')
     @ (case utcoffset dt of None \<Rightarrow> '''' | Some off \<Rightarrow> format_offset off)"

text \<open>\<^verbatim>\<open>s.replace(old, new)\<close>: every occurrence of \<open>old\<close>, left to right, without overlap;
  an empty \<open>old\<close> matches before every character and at the end.\<close>

fun py_replace :: "string \<Rightarrow> string \<Rightarrow> string \<Rightarrow> string" where
  "py_replace old new [] = (if old = [] then new else [])"
| "py_replace old new (c # cs) =
     (if old = [] then new @ c # py_replace old new cs
      else if prefix old (c # cs) then new @ py_replace old new (drop (length old - 1) cs)
      else c # py_replace old new cs)"

text \<open>\<^verbatim>\<open>_to_iso(dt)\<close>, lines 131-139.\<close>

definition to_iso :: "(datetime \<Rightarrow> int) \<Rightarrow> datetime \<Rightarrow> error + string" where
  "to_iso local dt =
     (case astimezone_utc local dt of
        Inl e \<Rightarrow> Inl e
      | Inr utc \<Rightarrow> Inr (py_replace ''+00:00'' ''Z'' (isoformat (utc\<lparr>microsecond := 0\<rparr>))))"

text \<open>The date and time of a datetime to the second, as \<^verbatim>\<open>isoformat\<close> prints them.\<close>

definition iso_seconds :: "datetime \<Rightarrow> string" where
  "iso_seconds dt =
     zpad 4 (year dt) @ ''-'' @ zpad 2 (month dt) @ ''-'' @ zpad 2 (day dt) @ ''T''
     @ zpad 2 (hour dt) @ '':'' @ zpad 2 (minute dt) @ '':'' @ zpad 2 (second dt)"

section \<open>The environment of a call\<close>

text \<open>
  Everything a call reads that is not in the repository: the HTTP session (a function of
  the remote service's state), the clock, the parser \<^verbatim>\<open>datetime.fromisoformat\<close>, the
  system's local time zone, \<^verbatim>\<open>end_dt - timedelta(hours=hours)\<close> (float arithmetic of the
  datetime module; \<open>'h\<close> is the type of \<^verbatim>\<open>hours\<close>), \<^verbatim>\<open>repr\<close>, and the two pandas
  constructors \<^verbatim>\<open>pd.DataFrame(rows)\<close> and \<^verbatim>\<open>pd.DataFrame()\<close> (\<open>'f\<close> is the type of a
  frame). Each is a parameter: the theorems hold for every environment.
\<close>

record ('s, 'h, 'f) env =
  session_post :: "'s \<Rightarrow> request \<Rightarrow> (error + response) \<times> 's"
  now_utc :: datetime
  fromisoformat :: "string \<Rightarrow> error + datetime"
  local_offset :: "datetime \<Rightarrow> int"
  minus_hours :: "datetime \<Rightarrow> 'h \<Rightarrow> error + datetime"
  py_repr :: "json \<Rightarrow> string"
  DataFrame :: "json \<Rightarrow> error + 'f"
  empty_frame :: 'f

text \<open>\<^verbatim>\<open>_post(endpoint, payload)\<close>, lines 91-129: one request is sent, whatever follows.\<close>

definition post ::
  "('s, 'h, 'f) env \<Rightarrow> client \<Rightarrow> string \<Rightarrow> json \<Rightarrow> 's world \<Rightarrow> (error + json) \<times> 's world"
where
  "post env c endpoint payload w =
     (case session_post env (server w) (build_request c endpoint payload) of
        (reply, server') \<Rightarrow>
          (case reply of
             Inl e \<Rightarrow> Inl e
           | Inr r \<Rightarrow> post_result (py_repr env) r,
           \<lparr>server = server', sent = sent w @ [build_request c endpoint payload]\<rparr>))"

text \<open>\<^verbatim>\<open>_ensure_datetime(value, fallback=...)\<close>, lines 141-149.\<close>

definition ensure_datetime ::
  "('s, 'h, 'f) env \<Rightarrow> string option \<Rightarrow> datetime \<Rightarrow> error + datetime"
where
  "ensure_datetime env v fallback =
     (case v of
        None \<Rightarrow> Inr fallback
      | Some s \<Rightarrow>
         (case fromisoformat env (py_replace ''Z'' ''+00:00'' s) of
            Inl e \<Rightarrow> Inl e
          | Inr parsed \<Rightarrow>
              astimezone_utc (local_offset env)
                (if utcoffset parsed = None then parsed\<lparr>utcoffset := Some 0\<rparr> else parsed)))"

section \<open>Catalog lookup\<close>

text \<open>An optional list or string goes into the payload only when it is truthy.\<close>

definition list_field :: "string \<Rightarrow> string list option \<Rightarrow> (string \<times> json) list" where
  "list_field k v =
     (case v of
        None \<Rightarrow> []
      | Some xs \<Rightarrow> if xs = [] then [] else [(k, JList (map JStr xs))])"

definition str_field :: "string \<Rightarrow> string option \<Rightarrow> (string \<times> json) list" where
  "str_field k v =
     (case v of
        None \<Rightarrow> []
      | Some s \<Rightarrow> if s = [] then [] else [(k, JStr s)])"

text \<open>\<^verbatim>\<open>fetch_market_catalog\<close>, lines 160-200.\<close>

definition fetch_market_catalog ::
  "('s, 'h, 'f) env \<Rightarrow> client \<Rightarrow> string list option \<Rightarrow> string list option \<Rightarrow>
   string list option \<Rightarrow> string option \<Rightarrow> string option \<Rightarrow> 's world \<Rightarrow>
   (error + json) \<times> 's world"
where
  "fetch_market_catalog env c assets hs mts start_iso end_iso w =
     post env c ''api_v1_market_catalog''
       (JObj (list_field ''assets'' assets @ list_field ''horizons'' hs
              @ list_field ''market_types'' mts
              @ str_field ''start_ts'' start_iso @ str_field ''end_ts'' end_iso)) w"

section \<open>Grouping the catalog by interval\<close>

definition HORIZON_INTERVAL_MAP :: "(string \<times> string) list" where
  "HORIZON_INTERVAL_MAP =
     [(''daily'', ''5m''), (''weekly'', ''30m''), (''monthly'', ''1h''), (''yearly'', ''4h'')]"

text \<open>
  \<^verbatim>\<open>HORIZON_INTERVAL_MAP.get(horizon)\<close>: a list or dict is unhashable (TypeError); a
  string is looked up; any other value is not a key of the table.
\<close>

fun lookup_interval :: "json \<Rightarrow> error + string option" where
  "lookup_interval (JStr h) = Inr (map_of HORIZON_INTERVAL_MAP h)"
| "lookup_interval (JList xs) = Inl TypeError"
| "lookup_interval (JObj kvs) = Inl TypeError"
| "lookup_interval _ = Inr None"

text \<open>\<^verbatim>\<open>markets_by_interval[interval].append(market_id)\<close> on a \<^verbatim>\<open>defaultdict(list)\<close>:
  a new interval is added at the end with the one id.\<close>

definition append_market ::
  "(string \<times> json list) list \<Rightarrow> string \<Rightarrow> json \<Rightarrow> (string \<times> json list) list"
where
  "append_market markets_by_interval interval market_id =
     (case map_of markets_by_interval interval of
        None \<Rightarrow> markets_by_interval @ [(interval, [market_id])]
      | Some ids \<Rightarrow> AList.update interval (ids @ [market_id]) markets_by_interval)"

text \<open>One round of the loop of lines 275-282.\<close>

definition group_entry ::
  "(string \<times> json list) list \<Rightarrow> json \<Rightarrow> error + (string \<times> json list) list"
where
  "group_entry markets_by_interval entry =
     (case py_get entry ''horizon'' JNull of
        Inl e \<Rightarrow> Inl e
      | Inr horizon \<Rightarrow>
         (case py_get entry ''market_id'' JNull of
            Inl e \<Rightarrow> Inl e
          | Inr market_id \<Rightarrow>
             (if \<not> truthy horizon \<or> \<not> truthy market_id then Inr markets_by_interval
              else
                (case lookup_interval horizon of
                   Inl e \<Rightarrow> Inl e
                 | Inr None \<Rightarrow> Inr markets_by_interval
                 | Inr (Some interval) \<Rightarrow>
                     (if interval \<noteq> []
                      then Inr (append_market markets_by_interval interval market_id)
                      else Inr markets_by_interval)))))"

fun group_markets ::
  "json list \<Rightarrow> (string \<times> json list) list \<Rightarrow> error + (string \<times> json list) list"
where
  "group_markets [] markets_by_interval = Inr markets_by_interval"
| "group_markets (entry # entries) markets_by_interval =
     (case group_entry markets_by_interval entry of
        Inl e \<Rightarrow> Inl e
      | Inr markets_by_interval' \<Rightarrow> group_markets entries markets_by_interval')"

section \<open>Sorting and deduplicating market ids\<close>

text \<open>
  \<^verbatim>\<open>sorted(set(market_ids))\<close>. A set holds hashable values and identifies values that are
  equal in Python: a string equals only itself, \<^verbatim>\<open>True\<close> equals \<^verbatim>\<open>1\<close> and \<^verbatim>\<open>False\<close>
  equals \<^verbatim>\<open>0\<close>. \<open>hash_key\<close> is the value an element compares as; a list or a dict has
  none (TypeError).
\<close>

datatype pykey = KNone | KNum int | KStr string

fun hash_key :: "json \<Rightarrow> pykey option" where
  "hash_key JNull = Some KNone"
| "hash_key (JBool b) = Some (KNum (if b then 1 else 0))"
| "hash_key (JInt n) = Some (KNum n)"
| "hash_key (JStr s) = Some (KStr s)"
| "hash_key (JList xs) = None"
| "hash_key (JObj kvs) = None"

text \<open>The elements of the set: the first of every class of equal values is kept.\<close>

fun py_set :: "json list \<Rightarrow> json list" where
  "py_set [] = []"
| "py_set (x # xs) = x # py_set (filter (\<lambda>y. hash_key y \<noteq> hash_key x) xs)"

fun is_num :: "json \<Rightarrow> bool" where
  "is_num (JBool b) = True"
| "is_num (JInt n) = True"
| "is_num _ = False"

fun is_str :: "json \<Rightarrow> bool" where
  "is_str (JStr s) = True"
| "is_str _ = False"

fun num_of :: "json \<Rightarrow> int" where
  "num_of (JBool b) = (if b then 1 else 0)"
| "num_of (JInt n) = n"
| "num_of _ = 0"

fun str_of :: "json \<Rightarrow> string" where
  "str_of (JStr s) = s"
| "str_of _ = []"

text \<open>
  \<^verbatim>\<open>sorted\<close> compares with \<^verbatim>\<open><\<close>: strings by code point, lexicographically; numbers
  and booleans by value; a string against a number, or anything against None, raises
  TypeError. A list of at most one element is returned without a comparison.
\<close>

definition py_sorted_set :: "json list \<Rightarrow> error + json list" where
  "py_sorted_set ids =
     (if \<exists>x \<in> set ids. hash_key x = None then Inl TypeError
      else
        (let s = py_set ids in
           if length s \<le> 1 then Inr s
           else if list_all is_str s then Inr (sort_key str_of s)
           else if list_all is_num s then Inr (sort_key num_of s)
           else Inl TypeError))"

text \<open>Python's \<^verbatim>\<open><\<close> on two ids, where it is defined and true.\<close>

fun py_less :: "json \<Rightarrow> json \<Rightarrow> bool" where
  "py_less (JStr a) (JStr b) = (a < b)"
| "py_less (JStr a) _ = False"
| "py_less _ (JStr b) = False"
| "py_less a b = (is_num a \<and> is_num b \<and> num_of a < num_of b)"

section \<open>Fetching timeseries\<close>

text \<open>The keyword arguments of \<^verbatim>\<open>fetch_timeseries\<close> (lines 202-217) and its result
  (\<^verbatim>\<open>TimeseriesResult\<close>, types.py).\<close>

record 'h ts_args =
  asset :: string
  horizons :: "string list"
  market_types :: "string list option"
  start_ts :: "string option"
  end_ts :: "string option"
  hours :: 'h
  include_prices :: bool
  include_open_interest :: bool
  include_options_metrics :: bool
  prices_instrument :: string
  chunk_size :: int
  include_probabilities :: bool

record 'f timeseries_result =
  catalog :: json
  responses :: "(string \<times> json) list"
  dataframes :: "(string \<times> 'f) list"

text \<open>The \<^verbatim>\<open>blocks\<close> list of a bulk request, lines 300-314.\<close>

definition request_blocks :: "'h ts_args \<Rightarrow> string \<Rightarrow> json list" where
  "request_blocks args interval =
     (if include_probabilities args then [JStr ''probabilities''] else [])
     @ (if include_prices args then [JStr ''prices''] else [])
     @ (if include_options_metrics args \<and> interval = ''1d'' then [JStr ''options_metrics'']
        else [])"

text \<open>
  The payload of the bulk request for one chunk, lines 295-314. Both timestamps are
  formatted again for every chunk; the \<^verbatim>\<open>prices\<close> options are added after \<^verbatim>\<open>blocks\<close>.
\<close>

definition merged_payload ::
  "('s, 'h, 'f) env \<Rightarrow> 'h ts_args \<Rightarrow> datetime \<Rightarrow> datetime \<Rightarrow> string \<Rightarrow> json list \<Rightarrow>
   error + json"
where
  "merged_payload env args start_dt end_dt interval chunk_ids =
     (case to_iso (local_offset env) start_dt of
        Inl e \<Rightarrow> Inl e
      | Inr start_iso \<Rightarrow>
         (case to_iso (local_offset env) end_dt of
            Inl e \<Rightarrow> Inl e
          | Inr end_iso \<Rightarrow>
              Inr (JObj
                ([(''markets'', JList chunk_ids),
                  (''interval'', JStr interval),
                  (''start_ts'', JStr start_iso),
                  (''end_ts'', JStr end_iso),
                  (''blocks'', JList (request_blocks args interval))]
                 @ (if include_prices args
                    then [(''prices'',
                           JObj [(''instrument_type'', JStr (prices_instrument args)),
                                 (''include_open_interest'',
                                  JBool (include_open_interest args))])]
                    else [])))))"

text \<open>
  The loop over the chunks of one interval, lines 294-317: one request per chunk, in
  order, each response merged into \<open>aggregated\<close>; the first exception ends the call.
\<close>

fun fetch_chunks ::
  "('s, 'h, 'f) env \<Rightarrow> client \<Rightarrow> 'h ts_args \<Rightarrow> datetime \<Rightarrow> datetime \<Rightarrow> string \<Rightarrow>
   json list list \<Rightarrow> json \<Rightarrow> 's world \<Rightarrow> (error + json) \<times> 's world"
where
  "fetch_chunks env c args start_dt end_dt interval [] aggregated w = (Inr aggregated, w)"
| "fetch_chunks env c args start_dt end_dt interval (chunk_ids # chunks) aggregated w =
     (case merged_payload env args start_dt end_dt interval chunk_ids of
        Inl e \<Rightarrow> (Inl e, w)
      | Inr payload \<Rightarrow>
         (case post env c ''api_v1_merged'' payload w of
            (Inl e, w') \<Rightarrow> (Inl e, w')
          | (Inr response, w') \<Rightarrow>
             (case merge_responses aggregated response of
                Inl e \<Rightarrow> (Inl e, w')
              | Inr aggregated' \<Rightarrow>
                  fetch_chunks env c args start_dt end_dt interval chunks aggregated' w')))"

text \<open>
  \<^verbatim>\<open>_response_to_frames\<close>, lines 451-459: one round for a block name, then the loop
  over the three known blocks.
\<close>

definition block_frame ::
  "('s, 'h, 'f) env \<Rightarrow> json \<Rightarrow> string \<Rightarrow> (string \<times> 'f) list \<Rightarrow> error + (string \<times> 'f) list"
where
  "block_frame env response block frames =
     (case py_contains block response of
        Inl e \<Rightarrow> Inl e
      | Inr False \<Rightarrow> Inr frames
      | Inr True \<Rightarrow>
         (case py_getitem response block of
            Inl e \<Rightarrow> Inl e
          | Inr (JObj block_data) \<Rightarrow>
             (case py_get (JObj block_data) ''rows'' (JList []) of
                Inl e \<Rightarrow> Inl e
              | Inr rows \<Rightarrow>
                 (if truthy rows then
                    (case DataFrame env rows of
                       Inl e \<Rightarrow> Inl e
                     | Inr frame \<Rightarrow> Inr (AList.update block frame frames))
                  else Inr (AList.update block (empty_frame env) frames)))
          | Inr _ \<Rightarrow> Inr frames))"

fun block_frames ::
  "('s, 'h, 'f) env \<Rightarrow> json \<Rightarrow> string list \<Rightarrow> (string \<times> 'f) list \<Rightarrow> error + (string \<times> 'f) list"
where
  "block_frames env response [] frames = Inr frames"
| "block_frames env response (block # blocks) frames =
     (case block_frame env response block frames of
        Inl e \<Rightarrow> Inl e
      | Inr frames' \<Rightarrow> block_frames env response blocks frames')"

definition response_to_frames :: "('s, 'h, 'f) env \<Rightarrow> json \<Rightarrow> error + (string \<times> 'f) list" where
  "response_to_frames env response = block_frames env response known_blocks []"

text \<open>The key of a frame in the result, line 322; \<open>n\<close> is \<^verbatim>\<open>len(markets_by_interval)\<close>.\<close>

definition frame_key :: "nat \<Rightarrow> string \<Rightarrow> string \<Rightarrow> string" where
  "frame_key n block interval = (if n = 1 then block else block @ ''_'' @ interval)"

fun store_frames ::
  "nat \<Rightarrow> string \<Rightarrow> (string \<times> 'f) list \<Rightarrow> (string \<times> 'f) list \<Rightarrow> (string \<times> 'f) list"
where
  "store_frames n interval [] dfs = dfs"
| "store_frames n interval ((block, frame) # frames) dfs =
     store_frames n interval frames (AList.update (frame_key n block interval) frame dfs)"

text \<open>
  The loop over \<^verbatim>\<open>markets_by_interval.items()\<close>, lines 287-323. The state of the loop is
  \<^verbatim>\<open>merged_responses\<close> and \<^verbatim>\<open>dataframes\<close>.
\<close>

fun fetch_intervals ::
  "('s, 'h, 'f) env \<Rightarrow> client \<Rightarrow> 'h ts_args \<Rightarrow> datetime \<Rightarrow> datetime \<Rightarrow> nat \<Rightarrow>
   (string \<times> json list) list \<Rightarrow> (string \<times> json) list \<Rightarrow> (string \<times> 'f) list \<Rightarrow> 's world \<Rightarrow>
   (error + (string \<times> json) list \<times> (string \<times> 'f) list) \<times> 's world"
where
  "fetch_intervals env c args start_dt end_dt n [] merged_responses dfs w =
     (Inr (merged_responses, dfs), w)"
| "fetch_intervals env c args start_dt end_dt n ((interval, market_ids) # rest)
       merged_responses dfs w =
     (case py_sorted_set market_ids of
        Inl e \<Rightarrow> (Inl e, w)
      | Inr unique_ids \<Rightarrow>
         (if unique_ids = [] then
            fetch_intervals env c args start_dt end_dt n rest merged_responses dfs w
          else
            (case chunk unique_ids (chunk_size args) of
               Inl e \<Rightarrow> (Inl e, w)
             | Inr chunks \<Rightarrow>
                (case fetch_chunks env c args start_dt end_dt interval chunks (JObj []) w of
                   (Inl e, w') \<Rightarrow> (Inl e, w')
                 | (Inr aggregated, w') \<Rightarrow>
                    (case response_to_frames env aggregated of
                       Inl e \<Rightarrow> (Inl e, w')
                     | Inr frames \<Rightarrow>
                         fetch_intervals env c args start_dt end_dt n rest
                           (AList.update interval aggregated merged_responses)
                           (store_frames n interval frames dfs) w')))))"

text \<open>Truthiness of an optional string argument (\<^verbatim>\<open>if start_ts\<close>).\<close>

definition given :: "string option \<Rightarrow> bool" where
  "given v = (case v of None \<Rightarrow> False | Some s \<Rightarrow> s \<noteq> [])"

text \<open>
  Lines 258-269: the time window, then the catalog request. The fallback
  \<^verbatim>\<open>end_dt - timedelta(hours=hours)\<close> is computed whether or not \<^verbatim>\<open>start_ts\<close> is given.
\<close>

definition catalog_lookup ::
  "('s, 'h, 'f) env \<Rightarrow> client \<Rightarrow> 'h ts_args \<Rightarrow> 's world \<Rightarrow>
   (error + datetime \<times> datetime \<times> json) \<times> 's world"
where
  "catalog_lookup env c args w =
     (case ensure_datetime env (end_ts args) (now_utc env) of
        Inl e \<Rightarrow> (Inl e, w)
      | Inr end_dt \<Rightarrow>
         (case minus_hours env end_dt (hours args) of
            Inl e \<Rightarrow> (Inl e, w)
          | Inr fallback \<Rightarrow>
             (case ensure_datetime env (start_ts args) fallback of
                Inl e \<Rightarrow> (Inl e, w)
              | Inr start_dt \<Rightarrow>
                 (case (if given (start_ts args)
                        then map_sum id Some (to_iso (local_offset env) start_dt)
                        else Inr None) of
                    Inl e \<Rightarrow> (Inl e, w)
                  | Inr start_iso \<Rightarrow>
                     (case (if given (end_ts args)
                            then map_sum id Some (to_iso (local_offset env) end_dt)
                            else Inr None) of
                        Inl e \<Rightarrow> (Inl e, w)
                      | Inr end_iso \<Rightarrow>
                         (case fetch_market_catalog env c (Some [asset args])
                                 (Some (horizons args)) (market_types args)
                                 start_iso end_iso w of
                            (Inl e, w') \<Rightarrow> (Inl e, w')
                          | (Inr catalog_response, w') \<Rightarrow>
                              (Inr (start_dt, end_dt, catalog_response), w')))))))"

text \<open>\<^verbatim>\<open>fetch_timeseries\<close>, lines 202-329.\<close>

definition fetch_timeseries ::
  "('s, 'h, 'f) env \<Rightarrow> client \<Rightarrow> 'h ts_args \<Rightarrow> 's world \<Rightarrow>
   (error + 'f timeseries_result) \<times> 's world"
where
  "fetch_timeseries env c args w =
     (if horizons args = [] then
        (Inl (ValueError ''At least one horizon must be provided''), w)
      else
        (case catalog_lookup env c args w of
           (Inl e, w') \<Rightarrow> (Inl e, w')
         | (Inr (start_dt, end_dt, catalog_response), w') \<Rightarrow>
            (case py_get catalog_response ''markets'' (JList []) of
               Inl e \<Rightarrow> (Inl e, w')
             | Inr cat \<Rightarrow>
                (if \<not> truthy cat then
                   (Inr \<lparr>catalog = JList [], responses = [], dataframes = []\<rparr>, w')
                 else
                   (case py_iter cat of
                      Inl e \<Rightarrow> (Inl e, w')
                    | Inr entries \<Rightarrow>
                       (case group_markets entries [] of
                          Inl e \<Rightarrow> (Inl e, w')
                        | Inr markets_by_interval \<Rightarrow>
                           (case fetch_intervals env c args start_dt end_dt
                                   (length markets_by_interval) markets_by_interval [] [] w' of
                              (Inl e, w'') \<Rightarrow> (Inl e, w'')
                            | (Inr (merged_responses, dfs), w'') \<Rightarrow>
                                (Inr \<lparr>catalog = cat, responses = merged_responses,
                                      dataframes = dfs\<rparr>, w''))))))))"

section \<open>The requests of a call\<close>

text \<open>
  Predicates on the requests a call sends, used to state what the loops do:
  \<open>chunk_request\<close> says that a request is the bulk request of one chunk of an interval;
  \<open>interval_requests\<close> that a list of requests is, in order, the bulk requests of all the
  chunks of a group; \<open>request_of_group\<close> that a request is the bulk request of some chunk
  of a group.
\<close>

definition chunk_request ::
  "('s, 'h, 'f) env \<Rightarrow> client \<Rightarrow> 'h ts_args \<Rightarrow> datetime \<Rightarrow> datetime \<Rightarrow> string \<Rightarrow>
   request \<Rightarrow> json list \<Rightarrow> bool"
where
  "chunk_request env c args start_dt end_dt interval rq chunk_ids =
     (merged_payload env args start_dt end_dt interval chunk_ids = Inr (req_json rq)
      \<and> rq = build_request c ''api_v1_merged'' (req_json rq))"

definition interval_requests ::
  "('s, 'h, 'f) env \<Rightarrow> client \<Rightarrow> 'h ts_args \<Rightarrow> datetime \<Rightarrow> datetime \<Rightarrow>
   request list \<Rightarrow> string \<times> json list \<Rightarrow> bool"
where
  "interval_requests env c args start_dt end_dt seg g =
     (case py_sorted_set (snd g) of
        Inl e \<Rightarrow> False
      | Inr unique_ids \<Rightarrow>
          if unique_ids = [] then seg = []
          else
            (case chunk unique_ids (chunk_size args) of
               Inl e \<Rightarrow> False
             | Inr chunks \<Rightarrow>
                 list_all2 (chunk_request env c args start_dt end_dt (fst g)) seg chunks))"

definition request_of_group ::
  "('s, 'h, 'f) env \<Rightarrow> client \<Rightarrow> 'h ts_args \<Rightarrow> datetime \<Rightarrow> datetime \<Rightarrow>
   string \<times> json list \<Rightarrow> request \<Rightarrow> bool"
where
  "request_of_group env c args start_dt end_dt g rq =
     (case py_sorted_set (snd g) of
        Inl e \<Rightarrow> False
      | Inr unique_ids \<Rightarrow>
         (case chunk unique_ids (chunk_size args) of
            Inl e \<Rightarrow> False
          | Inr chunks \<Rightarrow>
              (\<exists>chunk_ids \<in> set chunks.
                 chunk_request env c args start_dt end_dt (fst g) rq chunk_ids)))"

text \<open>Reading a request: a list-valued field of its payload, its interval, its endpoint.\<close>

definition payload_list :: "string \<Rightarrow> json \<Rightarrow> json list" where
  "payload_list k payload =
     (case payload of
        JObj kvs \<Rightarrow> (case map_of kvs k of Some (JList xs) \<Rightarrow> xs | _ \<Rightarrow> [])
      | _ \<Rightarrow> [])"

definition request_interval :: "request \<Rightarrow> json option" where
  "request_interval rq = (case req_json rq of JObj kvs \<Rightarrow> map_of kvs ''interval'' | _ \<Rightarrow> None)"

definition is_merged_request :: "client \<Rightarrow> request \<Rightarrow> bool" where
  "is_merged_request c rq = (req_url rq = base_url c @ ''/api_v1_merged'')"

text \<open>The invariant of the grouping loop: the intervals are distinct values of the
  horizon table, and every interval has at least one id.\<close>

definition good_groups :: "(string \<times> json list) list \<Rightarrow> bool" where
  "good_groups gs = (distinct (map fst gs)
      \<and> (\<forall>g \<in> set gs. fst g \<in> snd ` set HORIZON_INTERVAL_MAP \<and> snd g \<noteq> []))"

section \<open>A scripted service for concrete runs\<close>

text \<open>
  A remote service that answers the requests it receives with the responses of a script,
  one after the other, and fails the transport when the script is over; an environment
  around it (a fixed clock, a parser that rejects every string, UTC as the local zone,
  frames that are the row lists themselves); and a response with status 200.
\<close>

definition scripted :: "response list \<Rightarrow> request \<Rightarrow> (error + response) \<times> response list" where
  "scripted script rq =
     (case script of [] \<Rightarrow> (Inl TransportFailure, []) | r # rest \<Rightarrow> (Inr r, rest))"

definition demo_env :: "(response list, nat, json) env" where
  "demo_env =
     \<lparr>session_post = scripted,
      now_utc = \<lparr>year = 2024, month = 1, day = 1, hour = 12, minute = 0, second = 0,
                 microsecond = 0, utcoffset = Some 0\<rparr>,
      fromisoformat = (\<lambda>s. Inl (ValueError ''Invalid isoformat string'')),
      local_offset = (\<lambda>dt. 0),
      minus_hours = (\<lambda>dt h. Inr (dt\<lparr>hour := hour dt - h\<rparr>)),
      py_repr = (\<lambda>v. ''<repr>''),
      DataFrame = (\<lambda>rows. Inr rows),
      empty_frame = JNull\<rparr>"

definition ok_response :: "json \<Rightarrow> response" where
  "ok_response b = \<lparr>resp_status = 200, resp_json = Some b, resp_text = '''', http_error_msg = ''''\<rparr>"

text \<open>A client, and the arguments of the README's example call (all defaults, one horizon).\<close>

definition demo_client :: client where
  "demo_client = \<lparr>base_url = ''https://api.example'', timeout = 60\<rparr>"

definition demo_args :: "nat ts_args" where
  "demo_args =
     \<lparr>asset = ''BTC'', horizons = [''daily''], market_types = None,
      start_ts = None, end_ts = None, hours = 6,
      include_prices = True, include_open_interest = True, include_options_metrics = False,
      prices_instrument = ''spot'', chunk_size = 10, include_probabilities = True\<rparr>"

text \<open>
  A concrete call: a catalog of four entries (two horizons, one duplicate id), chunks of
  one id, responses with one row each; the requests the call is expected to send; and the
  time window given by the fixed clock.
\<close>

definition demo_catalog :: json where
  "demo_catalog = JObj [(''markets'', JList
     [JObj [(''horizon'', JStr ''daily''), (''market_id'', JStr ''m2'')],
      JObj [(''horizon'', JStr ''daily''), (''market_id'', JStr ''m1'')],
      JObj [(''horizon'', JStr ''weekly''), (''market_id'', JStr ''w1'')],
      JObj [(''horizon'', JStr ''daily''), (''market_id'', JStr ''m1'')]])]"

definition demo_rows :: "string \<Rightarrow> json" where
  "demo_rows v = JObj [(''probabilities'', JObj [(''rows'', JList [JStr v])])]"

definition demo_request :: "string \<Rightarrow> json list \<Rightarrow> request" where
  "demo_request interval ids =
     \<lparr>req_url = ''https://api.example/api_v1_merged'',
      req_json = JObj [(''markets'', JList ids), (''interval'', JStr interval),
                       (''start_ts'', JStr ''2024-01-01T06:00:00Z''),
                       (''end_ts'', JStr ''2024-01-01T12:00:00Z''),
                       (''blocks'', JList [JStr ''probabilities''])],
      req_timeout = 60\<rparr>"

definition demo_catalog_request :: request where
  "demo_catalog_request =
     \<lparr>req_url = ''https://api.example/api_v1_market_catalog'',
      req_json = JObj [(''assets'', JList [JStr ''BTC'']), (''horizons'', JList [JStr ''daily''])],
      req_timeout = 60\<rparr>"

definition demo_args1 :: "nat ts_args" where
  "demo_args1 = demo_args\<lparr>include_prices := False, include_options_metrics := True, chunk_size := 1\<rparr>"

definition demo_start :: datetime where
  "demo_start = \<lparr>year = 2024, month = 1, day = 1, hour = 6, minute = 0, second = 0,
                 microsecond = 0, utcoffset = Some 0\<rparr>"

definition demo_end :: datetime where
  "demo_end = \<lparr>year = 2024, month = 1, day = 1, hour = 12, minute = 0, second = 0,
                 microsecond = 0, utcoffset = Some 0\<rparr>"

definition demo_entries :: "json list" where
  "demo_entries =
     [JObj [(''horizon'', JStr ''daily''), (''market_id'', JStr ''m2'')],
      JObj [(''horizon'', JStr ''daily''), (''market_id'', JStr ''m1'')],
      JObj [(''horizon'', JStr ''weekly''), (''market_id'', JStr ''w1'')],
      JObj [(''horizon'', JStr ''daily''), (''market_id'', JStr ''m1'')]]"

section \<open>Properties of chunking\<close>

lemma chunk_example_indices: "[0 ..< (3::nat)] = [0, 1, 2]"
  by (simp add: upt_rec)

lemma one_chunk_count: "0 < a \<Longrightarrow> a \<le> n \<Longrightarrow> (a + n - 1) div n = (1::nat)"
  by (rule div_nat_eqI) auto

lemma chunk_count_Suc:
  assumes "0 < m" "0 < (l::nat)"
  shows "(l + m - 1) div m = Suc ((l - m + m - 1) div m)"
proof (cases "m \<le> l")
  case True
  have e1: "l + m - 1 = (l - 1) + m" using assms by arith
  have e2: "l - m + m - 1 = l - 1" using True by arith
  have "(l - 1 + m) div m = (l - 1) div m + 1"
    by (rule div_add_self2) (use assms in simp)
  then show ?thesis by (simp only: e1 e2 Suc_eq_plus1)
next
  case False
  then have z: "l - m = 0" and le: "l \<le> m" by auto
  have "(m - 1) div m = 0" using assms by simp
  then show ?thesis using one_chunk_count[OF assms(2) le] by (simp add: z)
qed

lemma slices_Nil: "slices m [] = []"
  by (subst slices.simps) simp

lemma slices_step:
  "0 < m \<Longrightarrow> xs \<noteq> [] \<Longrightarrow> slices m xs = take m xs # slices m (drop m xs)"
  by (subst slices.simps) simp

lemma slices_indices:
  "0 < m \<Longrightarrow>
   map (\<lambda>index. take m (drop index xs)) (map (\<lambda>k. k * m) [0 ..< (length xs + m - 1) div m])
     = slices m xs"
proof (induction m xs rule: slices.induct)
  case (1 m xs)
  show ?case
  proof (cases "xs = []")
    case True
    then show ?thesis using 1(2) by (simp add: slices_Nil)
  next
    case False
    then have l: "0 < length xs" by simp
    have c: "(length xs + m - 1) div m = Suc ((length (drop m xs) + m - 1) div m)"
      using chunk_count_Suc[OF 1(2) l] by simp
    have ih: "map (\<lambda>index. take m (drop index (drop m xs)))
                (map (\<lambda>k. k * m) [0 ..< (length (drop m xs) + m - 1) div m])
              = slices m (drop m xs)"
      using 1 False by simp
    show ?thesis
      unfolding c slices_step[OF 1(2) False] using ih[symmetric]
      by (simp add: upt_conv_Cons map_Suc_upt[symmetric] add.commute del: upt_Suc)
  qed
qed

text \<open>For a positive size the generator yields exactly the recursive batches.\<close>

lemma chunk_slices: "0 < n \<Longrightarrow> chunk xs n = Inr (slices (nat n) xs)"
  using slices_indices[of "nat n" xs] by (simp add: chunk_def py_range_def)

lemma concat_slices: "0 < m \<Longrightarrow> concat (slices m xs) = xs"
proof (induction m xs rule: slices.induct)
  case (1 m xs)
  then show ?case
    by (cases "xs = []") (simp_all add: slices_Nil slices_step)
qed

lemma slices_bounds:
  "0 < m \<Longrightarrow> c \<in> set (slices m xs) \<Longrightarrow> c \<noteq> [] \<and> length c \<le> m"
proof (induction m xs rule: slices.induct)
  case (1 m xs)
  show ?case
  proof (cases "xs = []")
    case True
    with 1 show ?thesis by (simp add: slices_Nil)
  next
    case False
    with 1 show ?thesis by (auto simp: slices_step)
  qed
qed

text \<open>
  C6: \<^verbatim>\<open>_chunk\<close> splits a sequence into contiguous batches of at most the given size, in
  order (for a size of at least 1 the batches are non-empty, no longer than the size, and
  their concatenation is the sequence). On \<^verbatim>\<open>["a","b","c","d","e"]\<close> with size 2 it
  yields \<^verbatim>\<open>[["a","b"],["c","d"],["e"]]\<close>; for every size of at least 1 the empty sequence
  yields no chunk; and a non-empty sequence with a size of at least its length yields
  exactly one chunk, the whole sequence.
\<close>

theorem chunk_spec:
  "(\<forall>(sequence :: 'a list) n. 1 \<le> n \<longrightarrow>
       (\<exists>cs. chunk sequence n = Inr cs \<and> concat cs = sequence
          \<and> (\<forall>c \<in> set cs. c \<noteq> [] \<and> int (length c) \<le> n)))
   \<and> chunk [''a'', ''b'', ''c'', ''d'', ''e''] 2 = Inr [[''a'', ''b''], [''c'', ''d''], [''e'']]
   \<and> (\<forall>n. 1 \<le> n \<longrightarrow> chunk ([] :: 'a list) n = Inr [])
   \<and> (\<forall>(sequence :: 'a list) n. sequence \<noteq> [] \<and> int (length sequence) \<le> n
         \<longrightarrow> chunk sequence n = Inr [sequence])"
proof (intro conjI allI impI)
  fix sequence :: "'a list" and n :: int
  assume n: "1 \<le> n"
  then have m: "0 < nat n" by simp
  have "chunk sequence n = Inr (slices (nat n) sequence)"
    using n by (simp add: chunk_slices)
  moreover have "concat (slices (nat n) sequence) = sequence"
    using m by (rule concat_slices)
  moreover have "\<forall>c \<in> set (slices (nat n) sequence). c \<noteq> [] \<and> int (length c) \<le> n"
    using slices_bounds[OF m] n by fastforce
  ultimately show "\<exists>cs. chunk sequence n = Inr cs \<and> concat cs = sequence
      \<and> (\<forall>c \<in> set cs. c \<noteq> [] \<and> int (length c) \<le> n)"
    by blast
next
  show "chunk [''a'', ''b'', ''c'', ''d'', ''e''] 2 = Inr [[''a'', ''b''], [''c'', ''d''], [''e'']]"
    by (simp add: chunk_def py_range_def chunk_example_indices)
next
  fix n :: int
  assume "1 \<le> n"
  then show "chunk ([] :: 'a list) n = Inr []"
    by (simp add: chunk_def py_range_def)
next
  fix sequence :: "'a list" and n :: int
  assume a: "sequence \<noteq> [] \<and> int (length sequence) \<le> n"
  then have pos: "0 < length sequence" and le: "length sequence \<le> nat n"
    by auto
  have "(length sequence + nat n - 1) div nat n = 1"
    using pos le by (rule one_chunk_count)
  moreover from a have "0 < n"
    by (cases sequence) auto
  ultimately show "chunk sequence n = Inr [sequence]"
    using le by (simp add: chunk_def py_range_def)
qed


theorem chunk_spec_witness:
  "(1::int) \<le> 3 \<and> chunk ([] :: string list) 3 = Inr []
   \<and> [''x'', ''y''] \<noteq> [] \<and> int (length [''x'', ''y'']) \<le> 5
   \<and> chunk [''x'', ''y''] 5 = Inr [[''x'', ''y'']]"
proof -
  have a: "chunk ([] :: string list) 3 = Inr []"
    using chunk_spec[where ?'a = string, THEN conjunct2, THEN conjunct2, THEN conjunct1,
        rule_format, of 3]
    by simp
  have b: "chunk [''x'', ''y''] 5 = Inr [[''x'', ''y'']]"
    using chunk_spec[where ?'a = string, THEN conjunct2, THEN conjunct2, THEN conjunct2,
        rule_format, of "[''x'', ''y'']" 5]
    by simp
  show ?thesis using a b by simp
qed

section \<open>Properties of merging\<close>

lemma map_of_update_other: "k \<noteq> k' \<Longrightarrow> map_of (AList.update k' v kvs) k = map_of kvs k"
  by (simp add: update_conv')

lemma map_of_update_same: "map_of (AList.update k v kvs) k = Some v"
  by (simp add: update_conv')

lemma in_keys_iff: "k \<in> set (map fst kvs) \<longleftrightarrow> map_of kvs k \<noteq> None"
  by (simp add: map_of_eq_None_iff)

lemma merge_block_other:
  assumes "merge_block b' d s = Inr d'" "b \<noteq> b'"
  shows "block_rows d' b = block_rows d b"
  using assms
  by (cases d)
     (auto simp: merge_block_def map_of_update_other
           split: sum.splits bool.splits option.splits json.splits if_splits)

lemma merge_block_same:
  assumes "merge_block b d s = Inr d'" "block_rows d b = Some drows" "block_rows s b = Some srows"
  shows "block_rows d' b = Some (drows @ srows)"
  using assms
  by (cases d; cases s)
     (auto simp: merge_block_def map_of_update_same update_conv'
           split: sum.splits bool.splits option.splits json.splits if_splits)


lemma merge_blocks_other:
  "merge_blocks bs d s = Inr d' \<Longrightarrow> b \<notin> set bs \<Longrightarrow> block_rows d' b = block_rows d b"
proof (induction bs arbitrary: d)
  case Nil
  then show ?case by simp
next
  case (Cons a bs)
  from Cons.prems obtain d1 where d1: "merge_block a d s = Inr d1" "merge_blocks bs d1 s = Inr d'"
    by (auto split: sum.splits)
  have "block_rows d1 b = block_rows d b"
    using merge_block_other[OF d1(1)] Cons.prems(2) by auto
  moreover have "block_rows d' b = block_rows d1 b"
    using Cons.IH[OF d1(2)] Cons.prems(2) by simp
  ultimately show ?case by simp
qed

lemma merge_blocks_same:
  assumes "merge_blocks bs d s = Inr d'" "distinct bs" "b \<in> set bs"
    "block_rows d b = Some drows" "block_rows s b = Some srows"
  shows "block_rows d' b = Some (drows @ srows)"
  using assms
proof (induction bs arbitrary: d)
  case Nil
  then show ?case by simp
next
  case (Cons a bs)
  from Cons.prems(1) obtain d1 where d1: "merge_block a d s = Inr d1" "merge_blocks bs d1 s = Inr d'"
    by (auto split: sum.splits)
  show ?case
  proof (cases "b = a")
    case True
    then have "block_rows d1 b = Some (drows @ srows)"
      using merge_block_same[OF _ Cons.prems(4,5)] d1(1) by simp
    moreover have "b \<notin> set bs" using True Cons.prems(2) by simp
    ultimately show ?thesis using merge_blocks_other[OF d1(2)] by simp
  next
    case False
    then have "block_rows d1 b = Some drows"
      using merge_block_other[OF d1(1), of b] Cons.prems(4) by simp
    moreover have "b \<in> set bs" "distinct bs" using False Cons.prems(2,3) by auto
    ultimately show ?thesis using Cons.IH[OF d1(2)] Cons.prems(5) by simp
  qed
qed

lemma merge_meta_rows:
  "merge_meta d s = Inr d' \<Longrightarrow> b \<noteq> ''meta'' \<Longrightarrow> block_rows d' b = block_rows d b"
  by (cases d)
     (auto simp: merge_meta_def map_of_update_other split: sum.splits bool.splits if_splits)

lemma merge_rows_appended:
  assumes "merge_responses destination source = Inr result"
    and "block \<in> set known_blocks"
    and "block_rows destination block = Some drows"
    and "block_rows source block = Some srows"
  shows "block_rows result block = Some (drows @ srows)"
proof -
  have t: "truthy destination" using assms(3) by (cases destination) auto
  from assms(1) t obtain d1 where d1: "merge_blocks known_blocks destination source = Inr d1"
      "merge_meta d1 source = Inr result"
    by (auto simp: merge_responses_def split: sum.splits)
  have "distinct known_blocks" by (simp add: known_blocks_def)
  then have "block_rows d1 block = Some (drows @ srows)"
    using merge_blocks_same[OF d1(1) _ assms(2,3,4)] by simp
  moreover have "block \<noteq> ''meta''" using assms(2) by (auto simp: known_blocks_def)
  ultimately show ?thesis using merge_meta_rows[OF d1(2)] by simp
qed


lemma is_response_iff:
  "is_response (JObj kvs) \<longleftrightarrow>
     (\<forall>b \<in> set known_blocks. map_of kvs b = None \<or> block_rows (JObj kvs) b \<noteq> None)"
  by (simp add: list_all_iff)

lemma block_rows_SomeD:
  "block_rows (JObj kvs) b \<noteq> None \<Longrightarrow>
     \<exists>bd rows. map_of kvs b = Some (JObj bd) \<and> map_of bd ''rows'' = Some (JList rows)"
  by (auto split: option.splits json.splits)

lemma block_rows_update_other:
  "b \<noteq> b' \<Longrightarrow> block_rows (JObj (AList.update b' v kvs)) b = block_rows (JObj kvs) b"
  by (simp add: map_of_update_other)

lemma is_response_update:
  assumes "is_response (JObj kvs)" "block_rows (JObj (AList.update b v kvs)) b \<noteq> None"
  shows "is_response (JObj (AList.update b v kvs))"
  unfolding is_response_iff
proof
  fix c assume c: "c \<in> set known_blocks"
  show "map_of (AList.update b v kvs) c = None \<or> block_rows (JObj (AList.update b v kvs)) c \<noteq> None"
  proof (cases "c = b")
    case True
    then show ?thesis using assms(2) by simp
  next
    case False
    have "map_of kvs c = None \<or> block_rows (JObj kvs) c \<noteq> None"
      using assms(1) c unfolding is_response_iff by blast
    then show ?thesis
      using False by (simp only: map_of_update_other[OF False] block_rows_update_other[OF False])
  qed
qed

lemma merge_block_total:
  assumes d: "is_response d" and s: "is_response s" and b: "b \<in> set known_blocks"
  shows "\<exists>d'. merge_block b d s = Inr d' \<and> is_response d'"
proof -
  from d obtain dk where dk: "d = JObj dk" by (cases d) auto
  from s obtain sk where sk: "s = JObj sk" by (cases s) auto
  show ?thesis
  proof (cases "map_of sk b")
    case None
    then show ?thesis using d by (simp add: merge_block_def dk sk)
  next
    case (Some v)
    then have "block_rows (JObj sk) b \<noteq> None"
      using s b unfolding sk is_response_iff by auto
    then obtain bd srows where bd: "map_of sk b = Some (JObj bd)" "map_of bd ''rows'' = Some (JList srows)"
      using block_rows_SomeD by blast
    show ?thesis
    proof (cases "map_of dk b")
      case None
      obtain cols where cols: "py_get (JObj bd) ''columns'' (JList []) = Inr cols"
        by (cases "map_of bd ''columns''") auto
      let ?nb = "JObj [(''columns'', cols), (''rows'', JList srows)]"
      have m: "merge_block b d s = Inr (JObj (AList.update b ?nb dk))"
        using None bd cols by (simp add: merge_block_def dk sk)
      have "block_rows (JObj (AList.update b ?nb dk)) b \<noteq> None"
        by (simp add: map_of_update_same)
      then show ?thesis using m is_response_update d unfolding dk by blast
    next
      case (Some dv)
      then have "block_rows (JObj dk) b \<noteq> None"
        using d b unfolding dk is_response_iff by auto
      then obtain dbd drows where dbd: "map_of dk b = Some (JObj dbd)" "map_of dbd ''rows'' = Some (JList drows)"
        using block_rows_SomeD by blast
      let ?nb = "JObj (AList.update ''rows'' (JList (drows @ srows)) dbd)"
      have m: "merge_block b d s = Inr (JObj (AList.update b ?nb dk))"
        using dbd bd by (simp add: merge_block_def dk sk)
      have "block_rows (JObj (AList.update b ?nb dk)) b \<noteq> None"
        by (simp add: map_of_update_same)
      then show ?thesis using m is_response_update d unfolding dk by blast
    qed
  qed
qed

lemma merge_blocks_total:
  "is_response d \<Longrightarrow> is_response s \<Longrightarrow> set bs \<subseteq> set known_blocks \<Longrightarrow>
     \<exists>d'. merge_blocks bs d s = Inr d' \<and> is_response d'"
proof (induction bs arbitrary: d)
  case Nil
  then show ?case by simp
next
  case (Cons a bs)
  then obtain d1 where d1: "merge_block a d s = Inr d1" "is_response d1"
    using merge_block_total[of d s a] by auto
  then show ?case using Cons.IH[of d1] Cons.prems by simp
qed

lemma merge_meta_total:
  assumes "is_response d" "is_response s"
  shows "\<exists>d'. merge_meta d s = Inr d'"
proof -
  from assms obtain dk sk where "d = JObj dk" "s = JObj sk"
    by (cases d; cases s) auto
  then show ?thesis
    by (cases "map_of sk ''meta''") (auto simp: merge_meta_def)
qed

lemma merge_responses_total:
  assumes "is_response destination" "is_response source"
  shows "\<exists>result. merge_responses destination source = Inr result"
proof (cases "truthy destination")
  case False
  then show ?thesis by (simp add: merge_responses_def)
next
  case True
  obtain d1 where d1: "merge_blocks known_blocks destination source = Inr d1" "is_response d1"
    using merge_blocks_total[OF assms, of known_blocks] by auto
  then show ?thesis
    using merge_meta_total[OF d1(2) assms(2)] True by (auto simp: merge_responses_def)
qed


text \<open>
  C7: merging into an empty destination returns the source itself, whatever the source is.
\<close>

theorem merge_responses_empty_destination:
  "merge_responses (JObj []) source = Inr source"
  by (simp add: merge_responses_def)

text \<open>
  C3: when the destination is non-empty and a known block has rows in both the destination
  and the source, a merge that returns has, for that block, the destination's rows followed
  by the source's rows, in order; and on responses in the shape of the API the merge does
  return. With one row on each side the block ends with exactly two rows, the
  destination's first.
\<close>

theorem merge_responses_appends:
  assumes "truthy destination"
    and "block \<in> set known_blocks"
    and "block_rows destination block = Some drows"
    and "block_rows source block = Some srows"
  shows "(\<forall>result. merge_responses destination source = Inr result \<longrightarrow>
            block_rows result block = Some (drows @ srows))
       \<and> (is_response destination \<and> is_response source \<longrightarrow>
            (\<exists>result. merge_responses destination source = Inr result
               \<and> block_rows result block = Some (drows @ srows)))"
proof (intro conjI allI impI)
  fix result
  assume "merge_responses destination source = Inr result"
  then show "block_rows result block = Some (drows @ srows)"
    using assms(2,3,4) by (rule merge_rows_appended)
next
  assume "is_response destination \<and> is_response source"
  then obtain result where r: "merge_responses destination source = Inr result"
    using merge_responses_total by blast
  then have "block_rows result block = Some (drows @ srows)"
    using assms(2,3,4) by (rule merge_rows_appended)
  with r show "\<exists>result. merge_responses destination source = Inr result
      \<and> block_rows result block = Some (drows @ srows)"
    by blast
qed

theorem merge_responses_appends_witness:
  "truthy (JObj [(''probabilities'',
       JObj [(''columns'', JList [JStr ''col1'']),
             (''rows'', JList [JObj [(''col1'', JStr ''value1'')]])])])
   \<and> (\<exists>result.
        merge_responses
          (JObj [(''probabilities'',
             JObj [(''columns'', JList [JStr ''col1'']),
                   (''rows'', JList [JObj [(''col1'', JStr ''value1'')]])])])
          (JObj [(''probabilities'',
             JObj [(''columns'', JList [JStr ''col1'']),
                   (''rows'', JList [JObj [(''col1'', JStr ''value2'')]])])])
          = Inr result
        \<and> block_rows result ''probabilities''
            = Some [JObj [(''col1'', JStr ''value1'')], JObj [(''col1'', JStr ''value2'')]])"
proof -
  let ?d = "JObj [(''probabilities'',
       JObj [(''columns'', JList [JStr ''col1'']),
             (''rows'', JList [JObj [(''col1'', JStr ''value1'')]])])]"
  let ?s = "JObj [(''probabilities'',
       JObj [(''columns'', JList [JStr ''col1'']),
             (''rows'', JList [JObj [(''col1'', JStr ''value2'')]])])]"
  have h1: "truthy ?d" by simp
  have h2: "''probabilities'' \<in> set known_blocks" by (simp add: known_blocks_def)
  have h3: "block_rows ?d ''probabilities'' = Some [JObj [(''col1'', JStr ''value1'')]]" by simp
  have h4: "block_rows ?s ''probabilities'' = Some [JObj [(''col1'', JStr ''value2'')]]" by simp
  have h5: "is_response ?d \<and> is_response ?s" by (simp add: known_blocks_def)
  show ?thesis
    using merge_responses_appends[OF h1 h2 h3 h4, THEN conjunct2, rule_format, OF h5] h1
    by simp
qed

section \<open>Properties of the request helper\<close>

lemma post_error_envelope_aux:
  assumes "\<not> (400 \<le> resp_status r \<and> resp_status r < 600)"
    and "resp_json r = Some (JObj kvs)"
    and "map_of kvs ''error'' = Some error_obj"
  shows "post_result repr r =
     Inl (RuntimeError (''API returned error: '' @
        (case error_obj of
           JObj eo \<Rightarrow> (case map_of eo ''message'' of
                         Some m \<Rightarrow> py_str repr m
                       | None \<Rightarrow> py_str repr error_obj)
         | _ \<Rightarrow> py_str repr error_obj)))"
  using assms
  by (cases error_obj) (auto simp: post_result_def py_str_def split: option.splits)

text \<open>
  C5, as the code has it: for a response with a 2xx status whose decoded body is a dict
  with an \<^verbatim>\<open>error\<close> entry, the helper raises RuntimeError (the spec's ApiError)
  instead of returning the body. The message is \<^verbatim>\<open>error.message\<close> when the error object
  is a dict with a \<^verbatim>\<open>message\<close> key, and the stringified error object otherwise (a dict
  without that key, or any other value). The result of \<^verbatim>\<open>_post\<close> is this result
  whenever the session returns that response.
\<close>

theorem post_error_envelope:
  assumes "200 \<le> resp_status r" and "resp_status r < 300"
    and "resp_json r = Some (JObj kvs)"
    and "map_of kvs ''error'' = Some error_obj"
  shows "post_result (py_repr env) r =
           Inl (RuntimeError (''API returned error: '' @
             (case error_obj of
                JObj eo \<Rightarrow> (case map_of eo ''message'' of
                              Some m \<Rightarrow> py_str (py_repr env) m
                            | None \<Rightarrow> py_str (py_repr env) error_obj)
              | _ \<Rightarrow> py_str (py_repr env) error_obj)))
       \<and> (\<forall>c endpoint payload w server'.
            session_post env (server w) (build_request c endpoint payload) = (Inr r, server')
            \<longrightarrow> fst (post env c endpoint payload w) = post_result (py_repr env) r)"
proof
  have "\<not> (400 \<le> resp_status r \<and> resp_status r < 600)" using assms(2) by simp
  then show "post_result (py_repr env) r =
           Inl (RuntimeError (''API returned error: '' @
             (case error_obj of
                JObj eo \<Rightarrow> (case map_of eo ''message'' of
                              Some m \<Rightarrow> py_str (py_repr env) m
                            | None \<Rightarrow> py_str (py_repr env) error_obj)
              | _ \<Rightarrow> py_str (py_repr env) error_obj)))"
    using assms(3,4) by (rule post_error_envelope_aux)
next
  show "\<forall>c endpoint payload w server'.
            session_post env (server w) (build_request c endpoint payload) = (Inr r, server')
            \<longrightarrow> fst (post env c endpoint payload w) = post_result (py_repr env) r"
    by (simp add: post_def)
qed

theorem post_error_envelope_witness:
  "post_result (py_repr demo_env)
      (ok_response (JObj [(''error'', JObj [(''code'', JStr ''BAD''), (''message'', JStr ''boom'')])]))
     = Inl (RuntimeError ''API returned error: boom'')
   \<and> fst (post demo_env \<lparr>base_url = ''https://h'', timeout = 60\<rparr> ''api_v1_merged'' (JObj [])
            \<lparr>server = [ok_response (JObj [(''error'', JObj [(''code'', JStr ''BAD''), (''message'', JStr ''boom'')])])],
             sent = []\<rparr>)
     = Inl (RuntimeError ''API returned error: boom'')"
proof -
  let ?r = "ok_response (JObj [(''error'', JObj [(''code'', JStr ''BAD''), (''message'', JStr ''boom'')])])"
  have h1: "200 \<le> resp_status ?r" and h2: "resp_status ?r < 300"
    and h3: "resp_json ?r = Some (JObj [(''error'', JObj [(''code'', JStr ''BAD''), (''message'', JStr ''boom'')])])"
    and h4: "map_of [(''error'', JObj [(''code'', JStr ''BAD''), (''message'', JStr ''boom'')])] ''error''
        = Some (JObj [(''code'', JStr ''BAD''), (''message'', JStr ''boom'')])"
    by (simp_all add: ok_response_def)
  note t = post_error_envelope[OF h1 h2 h3 h4, of demo_env]
  have a: "post_result (py_repr demo_env) ?r = Inl (RuntimeError ''API returned error: boom'')"
    using t[THEN conjunct1] by (simp add: py_str_def)
  have s: "session_post demo_env (server \<lparr>server = [?r], sent = []\<rparr>)
        (build_request \<lparr>base_url = ''https://h'', timeout = 60\<rparr> ''api_v1_merged'' (JObj []))
      = (Inr ?r, [])"
    by (simp add: demo_env_def scripted_def)
  have b: "fst (post demo_env \<lparr>base_url = ''https://h'', timeout = 60\<rparr> ''api_v1_merged'' (JObj [])
            \<lparr>server = [?r], sent = []\<rparr>) = post_result (py_repr demo_env) ?r"
    using t[THEN conjunct2, rule_format, OF s] .
  show ?thesis using a b by simp
qed

text \<open>
  C5 as stated fails for an error object that is a dict without a \<^verbatim>\<open>message\<close> key:
  with status 200 and the body \<^verbatim>\<open>{"error": {"code": "BAD"}}\<close> the message is the
  stringified error object, not its (absent) \<^verbatim>\<open>message\<close>.
\<close>

theorem post_error_message_counterexample:
  "resp_status (ok_response (JObj [(''error'', JObj [(''code'', JStr ''BAD'')])])) = 200
   \<and> resp_json (ok_response (JObj [(''error'', JObj [(''code'', JStr ''BAD'')])]))
       = Some (JObj [(''error'', JObj [(''code'', JStr ''BAD'')])])
   \<and> map_of [(''code'', JStr ''BAD'')] ''message'' = None
   \<and> post_result (py_repr demo_env) (ok_response (JObj [(''error'', JObj [(''code'', JStr ''BAD'')])]))
       = Inl (RuntimeError (''API returned error: ''
               @ py_repr demo_env (JObj [(''code'', JStr ''BAD'')])))"
  by (simp add: ok_response_def post_result_def py_str_def demo_env_def)

section \<open>Properties of the timestamp format\<close>

lemma digit_char_digit: "d < 10 \<Longrightarrow> digit_char d \<in> set ''0123456789''"
  unfolding digit_char_def by (rule nth_mem) simp

lemma dec_digits: "set (dec n) \<subseteq> set ''0123456789''"
proof (induction n rule: dec.induct)
  case (1 n)
  show ?case
  proof (cases "n < 10")
    case True
    then show ?thesis using digit_char_digit[of n] by (subst dec.simps) simp
  next
    case False
    have "n mod 10 < 10" by simp
    then have "digit_char (n mod 10) \<in> set ''0123456789''" by (rule digit_char_digit)
    moreover have "set (dec (n div 10)) \<subseteq> set ''0123456789''" using 1 False by simp
    ultimately show ?thesis using False by (subst dec.simps) simp
  qed
qed

lemma zpad_digits: "set (zpad w n) \<subseteq> set ''0123456789''"
  using dec_digits[of n] by (auto simp: zpad_def)

lemma zpad_no_plus: "CHR ''+'' \<notin> set (zpad w n)" and zpad_no_dot: "CHR ''.'' \<notin> set (zpad w n)"
  using zpad_digits[of w n] by auto

lemma iso_seconds_chars: "CHR ''+'' \<notin> set (iso_seconds dt)" "CHR ''.'' \<notin> set (iso_seconds dt)"
  by (simp_all add: iso_seconds_def zpad_no_plus zpad_no_dot)

lemma replace_suffix:
  "CHR ''+'' \<notin> set pre \<Longrightarrow> py_replace ''+00:00'' ''Z'' (pre @ ''+00:00'') = pre @ ''Z''"
proof (induction pre)
  case Nil
  show ?case by simp
next
  case (Cons c pre)
  then have "c \<noteq> CHR ''+''" by auto
  then show ?case using Cons by simp
qed

lemma format_offset_zero: "format_offset 0 = ''+00:00''"
  by (simp add: format_offset_def zpad_def dec.simps digit_char_def)

lemma astimezone_utc_offset:
  assumes "astimezone_utc local dt = Inr u"
  shows "utcoffset u = Some 0"
proof -
  obtain days secs us where
    "(if 0 < days \<and> days \<le> 3652059 then
        (case ord2ymd (nat days) of
           (y, m, d) \<Rightarrow>
             Inr \<lparr>year = y, month = m, day = d,
                  hour = nat (secs div 3600), minute = nat ((secs mod 3600) div 60),
                  second = nat (secs mod 60), microsecond = nat us,
                  utcoffset = Some 0\<rparr>)
      else Inl OverflowError) = Inr u"
    using assms unfolding astimezone_utc_def Let_def by blast
  then show ?thesis
    by (cases "ord2ymd (nat days)") (auto split: if_splits)
qed

lemma isoformat_utc_seconds:
  "utcoffset u = Some 0 \<Longrightarrow> isoformat (u\<lparr>microsecond := 0\<rparr>) = iso_seconds u @ ''+00:00''"
  by (simp add: isoformat_def iso_seconds_def format_offset_zero)

lemma to_iso_eq:
  assumes "astimezone_utc local dt = Inr u"
  shows "to_iso local dt = Inr (iso_seconds u @ ''Z'')"
proof -
  have "utcoffset u = Some 0" using assms by (rule astimezone_utc_offset)
  then have "isoformat (u\<lparr>microsecond := 0\<rparr>) = iso_seconds u @ ''+00:00''"
    by (rule isoformat_utc_seconds)
  moreover have "py_replace ''+00:00'' ''Z'' (iso_seconds u @ ''+00:00'') = iso_seconds u @ ''Z''"
    using iso_seconds_chars(1) by (rule replace_suffix)
  ultimately show ?thesis using assms by (simp add: to_iso_def)
qed

lemma zpad_2024: "zpad 4 2024 = ''2024''"
  by (simp add: zpad_def dec.simps[of 2024] dec.simps[of 202] dec.simps[of 20] dec.simps[of 2]
      digit_char_def)

lemma zpad_small: "zpad 2 0 = ''00''" "zpad 2 (Suc 0) = ''01''" "zpad 2 12 = ''12''"
  by (simp_all add: zpad_def dec.simps[of 0] dec.simps[of "Suc 0"] dec.simps[of 12]
      dec.simps[of 1] digit_char_def)

lemma no_sublist_plus: "CHR ''+'' \<notin> set s \<Longrightarrow> \<not> sublist ''+00:00'' s"
  by (auto simp: sublist_def)

text \<open>
  C9: for every datetime whose UTC value is 2024-01-01T12:00:00 (whatever its own offset
  and microseconds), \<^verbatim>\<open>_to_iso\<close> returns exactly \<^verbatim>\<open>2024-01-01T12:00:00Z\<close>. In general,
  whenever the conversion to UTC succeeds the result is the UTC date and time to the second
  followed by \<^verbatim>\<open>Z\<close>; a result never contains \<^verbatim>\<open>+00:00\<close>, a plus sign or a decimal
  point (so no offset and no microseconds).
\<close>

theorem to_iso_spec:
  "(\<forall>u. astimezone_utc local dt = Inr u \<and> year u = 2024 \<and> month u = 1 \<and> day u = 1
          \<and> hour u = 12 \<and> minute u = 0 \<and> second u = 0
        \<longrightarrow> to_iso local dt = Inr ''2024-01-01T12:00:00Z'')
   \<and> (\<forall>u. astimezone_utc local dt = Inr u \<longrightarrow> to_iso local dt = Inr (iso_seconds u @ ''Z''))
   \<and> (\<forall>s. to_iso local dt = Inr s \<longrightarrow>
          (\<exists>u. astimezone_utc local dt = Inr u \<and> s = iso_seconds u @ ''Z'')
          \<and> \<not> sublist ''+00:00'' s \<and> CHR ''+'' \<notin> set s \<and> CHR ''.'' \<notin> set s)"
proof (intro conjI allI impI)
  fix u
  assume a: "astimezone_utc local dt = Inr u \<and> year u = 2024 \<and> month u = 1 \<and> day u = 1
          \<and> hour u = 12 \<and> minute u = 0 \<and> second u = 0"
  then have "iso_seconds u = ''2024-01-01T12:00:00''"
    by (simp add: iso_seconds_def zpad_2024 zpad_small)
  then show "to_iso local dt = Inr ''2024-01-01T12:00:00Z''"
    using a to_iso_eq[of local dt u] by simp
next
  fix u assume "astimezone_utc local dt = Inr u"
  then show "to_iso local dt = Inr (iso_seconds u @ ''Z'')" by (rule to_iso_eq)
next
  fix s assume s: "to_iso local dt = Inr s"
  then obtain u where u: "astimezone_utc local dt = Inr u"
    by (auto simp: to_iso_def split: sum.splits)
  then have e: "s = iso_seconds u @ ''Z''" using s to_iso_eq[OF u] by simp
  show "\<exists>u. astimezone_utc local dt = Inr u \<and> s = iso_seconds u @ ''Z''"
    using u e by blast
  show p: "CHR ''+'' \<notin> set s" using e iso_seconds_chars(1)[of u] by simp
  show "CHR ''.'' \<notin> set s" using e iso_seconds_chars(2)[of u] by simp
  show "\<not> sublist ''+00:00'' s" using p by (rule no_sublist_plus)
qed


lemma ymd2ord_2024_01_01: "ymd2ord 2024 (Suc 0) (Suc 0) = 738886"
  by (simp add: ymd2ord_def days_before_year_def days_before_month_def is_leap_def)

lemma ord2ymd_738886: "ord2ymd 738886 = (2024, 1, 1)"
  by (simp add: ord2ymd_def Let_def days_before_month_def is_leap_def)

lemma astimezone_utc_example:
  "astimezone_utc (\<lambda>dt. 0)
     \<lparr>year = 2024, month = 1, day = 1, hour = 13, minute = 0, second = 0,
      microsecond = 250, utcoffset = Some 3600000000\<rparr>
   = Inr \<lparr>year = 2024, month = 1, day = 1, hour = 12, minute = 0, second = 0,
          microsecond = 250, utcoffset = Some 0\<rparr>"
  by (simp add: astimezone_utc_def ymd2ord_2024_01_01 ord2ymd_738886 Let_def)

theorem to_iso_spec_witness:
  "astimezone_utc (\<lambda>dt. 0)
     \<lparr>year = 2024, month = 1, day = 1, hour = 13, minute = 0, second = 0,
      microsecond = 250, utcoffset = Some 3600000000\<rparr>
   = Inr \<lparr>year = 2024, month = 1, day = 1, hour = 12, minute = 0, second = 0,
          microsecond = 250, utcoffset = Some 0\<rparr>
   \<and> to_iso (\<lambda>dt. 0)
     \<lparr>year = 2024, month = 1, day = 1, hour = 13, minute = 0, second = 0,
      microsecond = 250, utcoffset = Some 3600000000\<rparr>
   = Inr ''2024-01-01T12:00:00Z''
   \<and> \<not> sublist ''+00:00'' ''2024-01-01T12:00:00Z''"
proof -
  let ?dt = "\<lparr>year = 2024, month = 1, day = 1, hour = 13, minute = 0, second = 0,
      microsecond = 250, utcoffset = Some 3600000000\<rparr>"
  let ?u = "\<lparr>year = 2024, month = 1, day = 1, hour = 12, minute = 0, second = 0,
          microsecond = 250, utcoffset = Some (0::int)\<rparr>"
  have a: "astimezone_utc (\<lambda>dt. 0) ?dt = Inr ?u \<and> year ?u = 2024 \<and> month ?u = 1 \<and> day ?u = 1
          \<and> hour ?u = 12 \<and> minute ?u = 0 \<and> second ?u = 0"
    using astimezone_utc_example by simp
  have r: "to_iso (\<lambda>dt. 0) ?dt = Inr ''2024-01-01T12:00:00Z''"
    using to_iso_spec[of "\<lambda>dt. 0" ?dt, THEN conjunct1, rule_format, OF a] .
  have "\<not> sublist ''+00:00'' ''2024-01-01T12:00:00Z''"
    using to_iso_spec[of "\<lambda>dt. 0" ?dt, THEN conjunct2, THEN conjunct2, rule_format, OF r]
    by blast
  then show ?thesis using a r by blast
qed

section \<open>The requests sent by the loops\<close>

lemma post_sent: "sent (snd (post env c endpoint payload w)) = sent w @ [build_request c endpoint payload]"
  by (simp add: post_def split: prod.splits)

lemma post_sent': "post env c endpoint payload w = (r, w') \<Longrightarrow>
   sent w' = sent w @ [build_request c endpoint payload]"
  using post_sent[of env c endpoint payload w] by simp

lemma build_request_json: "req_json (build_request c endpoint payload) = payload"
  by (simp add: build_request_def)

lemma fetch_chunks_sent:
  "fetch_chunks env c args s e i chunks agg w = (r, w') \<Longrightarrow>
   \<exists>new. sent w' = sent w @ new
     \<and> length new \<le> length chunks
     \<and> list_all2 (chunk_request env c args s e i) new (take (length new) chunks)
     \<and> (\<forall>a. r = Inr a \<longrightarrow> length new = length chunks)"
proof (induction chunks arbitrary: agg w)
  case Nil
  then show ?case by simp
next
  case (Cons ch chunks)
  show ?case
  proof (cases "merged_payload env args s e i ch")
    case (Inl err)
    then have "w' = w" "r = Inl err" using Cons.prems by auto
    then show ?thesis by simp
  next
    case (Inr payload)
    obtain r1 w1 where p: "post env c ''api_v1_merged'' payload w = (r1, w1)"
      by (cases "post env c ''api_v1_merged'' payload w")
    let ?rq = "build_request c ''api_v1_merged'' payload"
    have s1: "sent w1 = sent w @ [?rq]" using post_sent'[OF p] .
    have cr: "chunk_request env c args s e i ?rq ch"
      using Inr by (simp add: chunk_request_def build_request_json)
    show ?thesis
    proof (cases r1)
      case (Inl err)
      then have "w' = w1" "r = Inl err" using Cons.prems Inr p by auto
      then show ?thesis using s1 cr by (intro exI[of _ "[?rq]"]) simp
    next
      case r1: (Inr response)
      show ?thesis
      proof (cases "merge_responses agg response")
        case (Inl err)
        then have "w' = w1" "r = Inl err" using Cons.prems Inr p r1 by auto
        then show ?thesis using s1 cr by (intro exI[of _ "[?rq]"]) simp
      next
        case m: (Inr agg')
        then have "fetch_chunks env c args s e i chunks agg' w1 = (r, w')"
          using Cons.prems Inr p r1 by simp
        from Cons.IH[OF this] obtain new where new: "sent w' = sent w1 @ new"
          "length new \<le> length chunks"
          "list_all2 (chunk_request env c args s e i) new (take (length new) chunks)"
          "\<forall>a. r = Inr a \<longrightarrow> length new = length chunks"
          by blast
        show ?thesis using new s1 cr by (intro exI[of _ "?rq # new"]) simp
      qed
    qed
  qed
qed

lemma fetch_intervals_sent_ok:
  "fetch_intervals env c args s e n groups mr dfs w = (Inr res, w') \<Longrightarrow>
   \<exists>segs. sent w' = sent w @ concat segs
     \<and> list_all2 (interval_requests env c args s e) segs groups"
proof (induction groups arbitrary: mr dfs w)
  case Nil
  then show ?case by simp
next
  case (Cons g groups)
  obtain interval ids where g: "g = (interval, ids)" by (cases g)
  from Cons.prems obtain u where u: "py_sorted_set ids = Inr u"
    unfolding g by (cases "py_sorted_set ids") auto
  show ?case
  proof (cases "u = []")
    case True
    then have "fetch_intervals env c args s e n groups mr dfs w = (Inr res, w')"
      using Cons.prems u unfolding g by simp
    from Cons.IH[OF this] obtain segs where segs: "sent w' = sent w @ concat segs"
      "list_all2 (interval_requests env c args s e) segs groups" by blast
    have "interval_requests env c args s e [] g"
      using u True by (simp add: interval_requests_def g)
    then show ?thesis using segs by (intro exI[of _ "[] # segs"]) simp
  next
    case False
    from Cons.prems u False obtain chunks where ch: "chunk u (chunk_size args) = Inr chunks"
      unfolding g by (cases "chunk u (chunk_size args)") auto
    obtain r1 w1 where f: "fetch_chunks env c args s e interval chunks (JObj []) w = (r1, w1)"
      by (cases "fetch_chunks env c args s e interval chunks (JObj []) w")
    from Cons.prems u False ch f obtain agg where agg: "r1 = Inr agg"
      unfolding g by (cases r1) auto
    from Cons.prems u False ch f agg obtain frames where fr: "response_to_frames env agg = Inr frames"
      unfolding g by (cases "response_to_frames env agg") auto
    have rest: "fetch_intervals env c args s e n groups (AList.update interval agg mr)
                  (store_frames n interval frames dfs) w1 = (Inr res, w')"
      using Cons.prems u False ch f agg fr unfolding g by simp
    from fetch_chunks_sent[OF f] agg obtain seg where seg: "sent w1 = sent w @ seg"
      "list_all2 (chunk_request env c args s e interval) seg chunks"
      by auto
    from Cons.IH[OF rest] obtain segs where segs: "sent w' = sent w1 @ concat segs"
      "list_all2 (interval_requests env c args s e) segs groups" by blast
    have "interval_requests env c args s e seg g"
      using u False ch seg(2) by (simp add: interval_requests_def g)
    then show ?thesis using seg(1) segs by (intro exI[of _ "seg # segs"]) simp
  qed
qed


lemma list_all2_take_member:
  assumes a: "list_all2 P xs (take (length xs) ys)" and x: "x \<in> set xs"
  shows "\<exists>y \<in> set ys. P x y"
proof -
  from x obtain i where i: "i < length xs" "xs ! i = x"
    by (auto simp: in_set_conv_nth)
  have len: "length xs = length (take (length xs) ys)"
    using a by (rule list_all2_lengthD)
  have "P (xs ! i) (take (length xs) ys ! i)"
    using a i(1) by (rule list_all2_nthD)
  moreover have "take (length xs) ys ! i \<in> set (take (length xs) ys)"
    using i(1) len by (intro nth_mem) simp
  then have "take (length xs) ys ! i \<in> set ys"
    by (rule in_set_takeD)
  ultimately show ?thesis using i(2) by blast
qed

lemma fetch_intervals_sent_any:
  "fetch_intervals env c args s e n groups mr dfs w = (r, w') \<Longrightarrow>
   \<exists>new. sent w' = sent w @ new
     \<and> (\<forall>rq \<in> set new. \<exists>g \<in> set groups. request_of_group env c args s e g rq)"
proof (induction groups arbitrary: mr dfs w)
  case Nil
  then show ?case by simp
next
  case (Cons g groups)
  obtain interval ids where g: "g = (interval, ids)" by (cases g)
  show ?case
  proof (cases "py_sorted_set ids")
    case (Inl err)
    then have "w' = w" using Cons.prems unfolding g by simp
    then show ?thesis by simp
  next
    case u: (Inr u)
    show ?thesis
    proof (cases "u = []")
      case True
      then have "fetch_intervals env c args s e n groups mr dfs w = (r, w')"
        using Cons.prems u unfolding g by simp
      from Cons.IH[OF this] show ?thesis by auto
    next
      case False
      show ?thesis
      proof (cases "chunk u (chunk_size args)")
        case (Inl err)
        then have "w' = w" using Cons.prems u False unfolding g by simp
        then show ?thesis by simp
      next
        case ch: (Inr chunks)
        obtain r1 w1 where f: "fetch_chunks env c args s e interval chunks (JObj []) w = (r1, w1)"
          by (cases "fetch_chunks env c args s e interval chunks (JObj []) w")
        from fetch_chunks_sent[OF f] obtain seg where seg: "sent w1 = sent w @ seg"
          "list_all2 (chunk_request env c args s e interval) seg (take (length seg) chunks)"
          by blast
        have segP: "\<forall>rq \<in> set seg. request_of_group env c args s e g rq"
        proof
          fix rq assume "rq \<in> set seg"
          then obtain y where "y \<in> set chunks" "chunk_request env c args s e interval rq y"
            using list_all2_take_member[OF seg(2)] by blast
          then show "request_of_group env c args s e g rq"
            using u ch by (auto simp: request_of_group_def g)
        qed
        show ?thesis
        proof (cases r1)
          case (Inl err)
          then have "w' = w1" using Cons.prems u False ch f unfolding g by simp
          then show ?thesis using seg(1) segP by (intro exI[of _ seg]) auto
        next
          case agg: (Inr agg)
          show ?thesis
          proof (cases "response_to_frames env agg")
            case (Inl err)
            then have "w' = w1" using Cons.prems u False ch f agg unfolding g by simp
            then show ?thesis using seg(1) segP by (intro exI[of _ seg]) auto
          next
            case (Inr frames)
            then have "fetch_intervals env c args s e n groups (AList.update interval agg mr)
                  (store_frames n interval frames dfs) w1 = (r, w')"
              using Cons.prems u False ch f agg unfolding g by simp
            from Cons.IH[OF this] obtain new where new: "sent w' = sent w1 @ new"
              "\<forall>rq \<in> set new. \<exists>g \<in> set groups. request_of_group env c args s e g rq"
              by blast
            show ?thesis using seg(1) segP new by (intro exI[of _ "seg @ new"]) auto
          qed
        qed
      qed
    qed
  qed
qed


section \<open>Properties of the sorted id set\<close>

lemma set_py_set: "set (py_set xs) \<subseteq> set xs"
proof (induction xs rule: py_set.induct)
  case 1
  show ?case by simp
next
  case (2 x xs)
  then show ?case by auto
qed

lemma py_set_keys_distinct: "distinct (map hash_key (py_set xs))"
proof (induction xs rule: py_set.induct)
  case 1
  show ?case by simp
next
  case (2 x xs)
  have "hash_key x \<notin> hash_key ` set (py_set (filter (\<lambda>y. hash_key y \<noteq> hash_key x) xs))"
    using set_py_set[of "filter (\<lambda>y. hash_key y \<noteq> hash_key x) xs"] by auto
  then show ?case using 2 by simp
qed

lemma py_set_nonempty: "xs \<noteq> [] \<Longrightarrow> py_set xs \<noteq> []"
  by (cases xs) simp_all

lemma insort_key_map_distinct:
  "distinct (map f (insort_key f x xs)) \<longleftrightarrow> f x \<notin> f ` set xs \<and> distinct (map f xs)"
  by (induction xs) (auto simp: set_insort_key)

lemma sort_key_map_distinct: "distinct (map f (sort_key f xs)) \<longleftrightarrow> distinct (map f xs)"
  by (induction xs) (simp_all add: sort_key_simps insort_key_map_distinct)

lemma sort_key_strict:
  fixes f :: "'a \<Rightarrow> 'b::linorder"
  assumes "distinct (map f xs)"
  shows "sorted_wrt (\<lambda>a b. f a < f b) (sort_key f xs)"
proof -
  have "sorted (map f (sort_key f xs))" by (rule sorted_sort_key)
  moreover have "distinct (map f (sort_key f xs))"
    using assms by (simp add: sort_key_map_distinct)
  ultimately have "sorted_wrt (<) (map f (sort_key f xs))"
    by (simp add: strict_sorted_iff)
  then show ?thesis by (simp add: sorted_wrt_map)
qed

lemma str_key: "is_str a \<Longrightarrow> is_str b \<Longrightarrow> str_of a = str_of b \<Longrightarrow> hash_key a = hash_key b"
  by (cases a; cases b) simp_all

lemma num_key: "is_num a \<Longrightarrow> is_num b \<Longrightarrow> num_of a = num_of b \<Longrightarrow> hash_key a = hash_key b"
  by (cases a; cases b) simp_all

lemma py_less_str: "is_str a \<Longrightarrow> is_str b \<Longrightarrow> str_of a < str_of b \<Longrightarrow> py_less a b"
  by (cases a; cases b) simp_all

lemma py_less_num: "is_num a \<Longrightarrow> is_num b \<Longrightarrow> num_of a < num_of b \<Longrightarrow> py_less a b"
  by (cases a; cases b) simp_all

lemma keys_distinct_map:
  assumes d: "distinct (map hash_key xs)"
    and k: "\<And>a b. a \<in> set xs \<Longrightarrow> b \<in> set xs \<Longrightarrow> f a = f b \<Longrightarrow> hash_key a = hash_key b"
  shows "distinct (map f xs)"
proof -
  from d have dx: "distinct xs" and inj: "inj_on hash_key (set xs)"
    by (simp_all add: distinct_map)
  have "inj_on f (set xs)"
  proof (rule inj_onI)
    fix a b assume "a \<in> set xs" "b \<in> set xs" "f a = f b"
    then have "hash_key a = hash_key b" by (rule k)
    then show "a = b" using inj \<open>a \<in> set xs\<close> \<open>b \<in> set xs\<close> by (auto dest: inj_onD)
  qed
  then show ?thesis using dx by (simp add: distinct_map)
qed

lemma sorted_strings:
  assumes "list_all is_str s" "distinct (map hash_key s)"
  shows "sorted_wrt py_less (sort_key str_of s)"
proof -
  have all: "\<forall>a \<in> set s. is_str a" using assms(1) by (simp add: list_all_iff)
  have "distinct (map str_of s)"
  proof (rule keys_distinct_map[OF assms(2)])
    fix a b assume "a \<in> set s" "b \<in> set s" "str_of a = str_of b"
    then show "hash_key a = hash_key b" using all str_key[of a b] by blast
  qed
  then have "sorted_wrt (\<lambda>a b. str_of a < str_of b) (sort_key str_of s)"
    by (rule sort_key_strict)
  then show ?thesis
  proof (rule sorted_wrt_mono_rel[rotated])
    fix a b assume "a \<in> set (sort_key str_of s)" "b \<in> set (sort_key str_of s)"
      "str_of a < str_of b"
    then show "py_less a b" using all py_less_str[of a b] by simp
  qed
qed

lemma sorted_numbers:
  assumes "list_all is_num s" "distinct (map hash_key s)"
  shows "sorted_wrt py_less (sort_key num_of s)"
proof -
  have all: "\<forall>a \<in> set s. is_num a" using assms(1) by (simp add: list_all_iff)
  have "distinct (map num_of s)"
  proof (rule keys_distinct_map[OF assms(2)])
    fix a b assume "a \<in> set s" "b \<in> set s" "num_of a = num_of b"
    then show "hash_key a = hash_key b" using all num_key[of a b] by blast
  qed
  then have "sorted_wrt (\<lambda>a b. num_of a < num_of b) (sort_key num_of s)"
    by (rule sort_key_strict)
  then show ?thesis
  proof (rule sorted_wrt_mono_rel[rotated])
    fix a b assume "a \<in> set (sort_key num_of s)" "b \<in> set (sort_key num_of s)"
      "num_of a < num_of b"
    then show "py_less a b" using all py_less_num[of a b] by simp
  qed
qed

lemma short_sorted: "length s \<le> 1 \<Longrightarrow> sorted_wrt P s"
  by (cases s) (simp_all add: Suc_le_eq)

lemma py_sorted_set_cases:
  assumes "py_sorted_set ids = Inr u"
  shows "(length (py_set ids) \<le> 1 \<and> u = py_set ids)
       \<or> (list_all is_str (py_set ids) \<and> u = sort_key str_of (py_set ids))
       \<or> (list_all is_num (py_set ids) \<and> u = sort_key num_of (py_set ids))"
proof (cases "\<exists>x \<in> set ids. hash_key x = None")
  case True
  then have "py_sorted_set ids = Inl TypeError" by (simp add: py_sorted_set_def)
  then show ?thesis using assms by simp
next
  case ok: False
  show ?thesis
  proof (cases "length (py_set ids) \<le> 1")
    case True
    then have "py_sorted_set ids = Inr (py_set ids)" using ok by (simp add: py_sorted_set_def)
    then show ?thesis using assms True by simp
  next
    case long: False
    show ?thesis
    proof (cases "list_all is_str (py_set ids)")
      case True
      then have "py_sorted_set ids = Inr (sort_key str_of (py_set ids))"
        using ok long by (simp add: py_sorted_set_def)
      then show ?thesis using assms True by simp
    next
      case nstr: False
      show ?thesis
      proof (cases "list_all is_num (py_set ids)")
        case True
        then have "py_sorted_set ids = Inr (sort_key num_of (py_set ids))"
          using ok long nstr by (simp add: py_sorted_set_def)
        then show ?thesis using assms True by simp
      next
        case False
        then have "py_sorted_set ids = Inl TypeError"
          using ok long nstr by (simp add: py_sorted_set_def)
        then show ?thesis using assms by simp
      qed
    qed
  qed
qed

lemma py_sorted_set_props:
  assumes "py_sorted_set ids = Inr u"
  shows "sorted_wrt py_less u \<and> distinct u \<and> set u \<subseteq> set ids \<and> (ids \<noteq> [] \<longrightarrow> u \<noteq> [])"
proof -
  let ?s = "py_set ids"
  have d: "distinct (map hash_key ?s)" by (rule py_set_keys_distinct)
  then have ds: "distinct ?s" by (simp add: distinct_map)
  have "sorted_wrt py_less u \<and> distinct u \<and> set u = set ?s \<and> length u = length ?s"
    using py_sorted_set_cases[OF assms]
  proof (elim disjE conjE)
    assume "length ?s \<le> 1" "u = ?s"
    then show ?thesis using ds by (simp add: short_sorted)
  next
    assume "list_all is_str ?s" "u = sort_key str_of ?s"
    then show ?thesis using ds d by (simp add: sorted_strings)
  next
    assume "list_all is_num ?s" "u = sort_key num_of ?s"
    then show ?thesis using ds d by (simp add: sorted_numbers)
  qed
  moreover have "set ?s \<subseteq> set ids" by (rule set_py_set)
  moreover have "ids \<noteq> [] \<longrightarrow> length ?s \<noteq> 0" using py_set_nonempty[of ids] by simp
  ultimately show ?thesis by auto
qed


section \<open>The catalog request\<close>

lemma build_request_url:
  "req_url (build_request c ''api_v1_market_catalog'' payload) = base_url c @ ''/api_v1_market_catalog''"
  "req_url (build_request c ''api_v1_merged'' payload) = base_url c @ ''/api_v1_merged''"
  by (simp_all add: build_request_def)

lemma map_of_list_field: "k \<noteq> k' \<Longrightarrow> map_of (list_field k v) k' = None"
  by (simp add: list_field_def split: option.splits)

lemma map_of_str_field: "k \<noteq> k' \<Longrightarrow> map_of (str_field k v) k' = None"
  by (simp add: str_field_def split: option.splits)

lemma catalog_payload_keys:
  "map_of (list_field ''assets'' a @ list_field ''horizons'' h @ list_field ''market_types'' m
           @ str_field ''start_ts'' s @ str_field ''end_ts'' e) ''blocks'' = None"
  "map_of (list_field ''assets'' a @ list_field ''horizons'' h @ list_field ''market_types'' m
           @ str_field ''start_ts'' s @ str_field ''end_ts'' e) ''interval'' = None"
  by (simp_all add: map_of_list_field map_of_str_field map_add_def)

lemma fetch_market_catalog_sent:
  assumes "fetch_market_catalog env c a h m s e w = (r, w')"
  shows "\<exists>kvs. sent w' = sent w @ [build_request c ''api_v1_market_catalog'' (JObj kvs)]
      \<and> map_of kvs ''blocks'' = None \<and> map_of kvs ''interval'' = None"
  using post_sent'[OF assms[unfolded fetch_market_catalog_def]] catalog_payload_keys[of a h m s e]
  by blast

lemma catalog_lookup_sent:
  assumes "catalog_lookup env c args w = (r, w')"
  shows "(\<exists>err. r = Inl err \<and> w' = w)
       \<or> (\<exists>kvs. sent w' = sent w @ [build_request c ''api_v1_market_catalog'' (JObj kvs)]
              \<and> map_of kvs ''blocks'' = None \<and> map_of kvs ''interval'' = None)"
proof (cases "ensure_datetime env (end_ts args) (now_utc env)")
  case (Inl err)
  then show ?thesis using assms by (auto simp: catalog_lookup_def)
next
  case e: (Inr end_dt)
  show ?thesis
  proof (cases "minus_hours env end_dt (hours args)")
    case (Inl err)
    then show ?thesis using assms e by (auto simp: catalog_lookup_def)
  next
    case f: (Inr fallback)
    show ?thesis
    proof (cases "ensure_datetime env (start_ts args) fallback")
      case (Inl err)
      then show ?thesis using assms e f by (auto simp: catalog_lookup_def)
    next
      case s: (Inr start_dt)
      show ?thesis
      proof (cases "if given (start_ts args)
                    then map_sum id Some (to_iso (local_offset env) start_dt) else Inr None")
        case (Inl err)
        then show ?thesis using assms e f s by (auto simp: catalog_lookup_def)
      next
        case si: (Inr start_iso)
        show ?thesis
        proof (cases "if given (end_ts args)
                      then map_sum id Some (to_iso (local_offset env) end_dt) else Inr None")
          case (Inl err)
          then show ?thesis using assms e f s si by (auto simp: catalog_lookup_def)
        next
          case ei: (Inr end_iso)
          obtain r1 w1 where p: "fetch_market_catalog env c (Some [asset args])
               (Some (horizons args)) (market_types args) start_iso end_iso w = (r1, w1)"
            by (cases "fetch_market_catalog env c (Some [asset args])
               (Some (horizons args)) (market_types args) start_iso end_iso w")
          have "w' = w1" using assms e f s si ei p
            by (cases r1) (simp_all add: catalog_lookup_def)
          then show ?thesis using fetch_market_catalog_sent[OF p] by blast
        qed
      qed
    qed
  qed
qed

section \<open>The grouping loop and the shape of a call\<close>

lemma interval_table_values:
  "snd ` set HORIZON_INTERVAL_MAP = {''5m'', ''30m'', ''1h'', ''4h''}"
  by (auto simp: HORIZON_INTERVAL_MAP_def)

lemma map_of_table_value:
  "map_of HORIZON_INTERVAL_MAP h = Some i \<Longrightarrow> i \<in> snd ` set HORIZON_INTERVAL_MAP"
  by (drule map_of_SomeD) force

lemma lookup_interval_value:
  "lookup_interval horizon = Inr (Some i) \<Longrightarrow> i \<in> snd ` set HORIZON_INTERVAL_MAP"
  using map_of_table_value by (cases horizon) auto

lemma set_alist_update: "set (AList.update k v al) \<subseteq> insert (k, v) (set al)"
  by (induction al) auto

lemma append_market_good:
  assumes "good_groups gs" "i \<in> snd ` set HORIZON_INTERVAL_MAP"
  shows "good_groups (append_market gs i x)"
proof (cases "map_of gs i")
  case None
  then have "i \<notin> fst ` set gs" by (simp add: map_of_eq_None_iff)
  then show ?thesis using assms None by (auto simp: good_groups_def append_market_def)
next
  case (Some ids)
  have k: "map fst (AList.update i (ids @ [x]) gs) = map fst gs"
    using Some by (simp add: update_keys map_of_eq_None_iff[symmetric])
  have "\<forall>g \<in> set (AList.update i (ids @ [x]) gs). fst g \<in> snd ` set HORIZON_INTERVAL_MAP \<and> snd g \<noteq> []"
  proof
    fix g assume "g \<in> set (AList.update i (ids @ [x]) gs)"
    then have "g \<in> set gs \<or> g = (i, ids @ [x])"
      using set_alist_update[of i "ids @ [x]" gs] by auto
    then show "fst g \<in> snd ` set HORIZON_INTERVAL_MAP \<and> snd g \<noteq> []"
    proof
      assume "g \<in> set gs"
      then show ?thesis using assms(1) unfolding good_groups_def by blast
    next
      assume "g = (i, ids @ [x])"
      then show ?thesis using assms(2) by simp
    qed
  qed
  then show ?thesis using assms(1) Some k by (simp add: good_groups_def append_market_def)
qed

lemma group_entry_good:
  assumes "group_entry gs entry = Inr gs'" "good_groups gs"
  shows "good_groups gs'"
proof -
  obtain horizon where h: "py_get entry ''horizon'' JNull = Inr horizon"
    using assms(1) by (cases "py_get entry ''horizon'' JNull") (simp_all add: group_entry_def)
  obtain market_id where m: "py_get entry ''market_id'' JNull = Inr market_id"
    using assms(1) h by (cases "py_get entry ''market_id'' JNull") (simp_all add: group_entry_def)
  show ?thesis
  proof (cases "\<not> truthy horizon \<or> \<not> truthy market_id")
    case True
    then have "gs' = gs" using assms(1) h m by (simp add: group_entry_def)
    then show ?thesis using assms(2) by simp
  next
    case False
    obtain li where li: "lookup_interval horizon = Inr li"
      using assms(1) h m False by (cases "lookup_interval horizon") (simp_all add: group_entry_def)
    show ?thesis
    proof (cases li)
      case None
      then have "gs' = gs" using assms(1) h m False li by (simp add: group_entry_def)
      then show ?thesis using assms(2) by simp
    next
      case (Some i)
      have iv: "i \<in> snd ` set HORIZON_INTERVAL_MAP"
        using li Some lookup_interval_value by simp
      have "gs' = gs \<or> gs' = append_market gs i market_id"
        using assms(1) h m False li Some by (auto simp: group_entry_def split: if_splits)
      then show ?thesis using assms(2) append_market_good[OF assms(2) iv] by auto
    qed
  qed
qed

lemma group_markets_good:
  "group_markets entries gs = Inr gs' \<Longrightarrow> good_groups gs \<Longrightarrow> good_groups gs'"
proof (induction entries arbitrary: gs)
  case Nil
  then show ?case by simp
next
  case (Cons entry entries)
  then obtain gs1 where g1: "group_entry gs entry = Inr gs1" "group_markets entries gs1 = Inr gs'"
    by (auto split: sum.splits)
  then show ?case using Cons.IH[OF g1(2)] group_entry_good[OF g1(1) Cons.prems(2)] by simp
qed

lemma good_groups_Nil: "good_groups []"
  by (simp add: good_groups_def)

lemma fetch_timeseries_cases:
  assumes ft: "fetch_timeseries env c args w = (r, w')"
  obtains
    (no_horizons) "horizons args = []" "w' = w"
  | (lookup_failed) err where "catalog_lookup env c args w = (Inl err, w')" "r = Inl err"
  | (stopped) s e cr where "catalog_lookup env c args w = (Inr (s, e, cr), w')"
      "\<forall>res. r = Inr res \<longrightarrow> res = \<lparr>catalog = JList [], responses = [], dataframes = []\<rparr>"
  | (fetched) s e cr w1 cat entries groups r' where
      "catalog_lookup env c args w = (Inr (s, e, cr), w1)"
      "py_get cr ''markets'' (JList []) = Inr cat" "truthy cat"
      "py_iter cat = Inr entries" "group_markets entries [] = Inr groups"
      "fetch_intervals env c args s e (length groups) groups [] [] w1 = (r', w')"
      "r = (case r' of Inl err \<Rightarrow> Inl err
            | Inr (mr, dfs) \<Rightarrow> Inr \<lparr>catalog = cat, responses = mr, dataframes = dfs\<rparr>)"
proof (cases "horizons args = []")
  case True
  then have "w' = w" using ft by (simp add: fetch_timeseries_def)
  then show ?thesis using True no_horizons by simp
next
  case h: False
  obtain r0 w1 where cl: "catalog_lookup env c args w = (r0, w1)"
    by (cases "catalog_lookup env c args w")
  show ?thesis
  proof (cases r0)
    case (Inl err)
    then have "r = Inl err" "w' = w1" using ft h cl by (simp_all add: fetch_timeseries_def)
    then show ?thesis using cl Inl lookup_failed by simp
  next
    case (Inr x)
    obtain s e cr where x: "x = (s, e, cr)" by (cases x)
    note cl' = cl[unfolded Inr x]
    have ft': "(case py_get cr ''markets'' (JList []) of
               Inl e \<Rightarrow> (Inl e, w1)
             | Inr cat \<Rightarrow>
                (if \<not> truthy cat then
                   (Inr \<lparr>catalog = JList [], responses = [], dataframes = []\<rparr>, w1)
                 else
                   (case py_iter cat of
                      Inl e \<Rightarrow> (Inl e, w1)
                    | Inr entries \<Rightarrow>
                       (case group_markets entries [] of
                          Inl e \<Rightarrow> (Inl e, w1)
                        | Inr markets_by_interval \<Rightarrow>
                           (case fetch_intervals env c args s e
                                   (length markets_by_interval) markets_by_interval [] [] w1 of
                              (Inl e, w'') \<Rightarrow> (Inl e, w'')
                            | (Inr (merged_responses, dfs), w'') \<Rightarrow>
                                (Inr \<lparr>catalog = cat, responses = merged_responses,
                                      dataframes = dfs\<rparr>, w'')))))) = (r, w')"
      using ft h cl' by (simp add: fetch_timeseries_def)
    show ?thesis
    proof (cases "py_get cr ''markets'' (JList [])")
      case (Inl err)
      then have "r = Inl err" "w' = w1" using ft' by simp_all
      then show ?thesis using cl' stopped by simp
    next
      case cat: (Inr cat)
      show ?thesis
      proof (cases "truthy cat")
        case False
        then have "r = Inr \<lparr>catalog = JList [], responses = [], dataframes = []\<rparr>" "w' = w1"
          using ft' cat by simp_all
        then show ?thesis using cl' stopped by simp
      next
        case t: True
        show ?thesis
        proof (cases "py_iter cat")
          case (Inl err)
          then have "r = Inl err" "w' = w1" using ft' cat t by simp_all
          then show ?thesis using cl' stopped by simp
        next
          case en: (Inr entries)
          show ?thesis
          proof (cases "group_markets entries []")
            case (Inl err)
            then have "r = Inl err" "w' = w1" using ft' cat t en by simp_all
            then show ?thesis using cl' stopped by simp
          next
            case gr: (Inr groups)
            obtain r' w2 where fi:
              "fetch_intervals env c args s e (length groups) groups [] [] w1 = (r', w2)"
              by (cases "fetch_intervals env c args s e (length groups) groups [] [] w1")
            have "w' = w2"
              and "r = (case r' of Inl err \<Rightarrow> Inl err
                 | Inr (mr, dfs) \<Rightarrow> Inr \<lparr>catalog = cat, responses = mr, dataframes = dfs\<rparr>)"
              using ft' cat t en gr fi by (auto split: sum.splits prod.splits)
            then show ?thesis using fetched[OF cl' cat t en gr] fi by simp
          qed
        qed
      qed
    qed
  qed
qed

section \<open>A concrete call, evaluated\<close>

lemma demo_sorted: "py_sorted_set [JStr ''m2'', JStr ''m1'', JStr ''m1''] = Inr [JStr ''m1'', JStr ''m2'']"
  by (simp add: py_sorted_set_def sort_key_def)

lemma demo_sorted2: "py_sorted_set [JStr ''w1''] = Inr [JStr ''w1'']"
  by (simp add: py_sorted_set_def)

lemma demo_chunks: "chunk [JStr ''m1'', JStr ''m2''] 1 = Inr [[JStr ''m1''], [JStr ''m2'']]"
  "chunk [JStr ''w1''] 1 = Inr [[JStr ''w1'']]"
  by (simp_all add: chunk_def py_range_def upt_rec)

lemma demo_groups: "group_markets
     [JObj [(''horizon'', JStr ''daily''), (''market_id'', JStr ''m2'')],
      JObj [(''horizon'', JStr ''daily''), (''market_id'', JStr ''m1'')],
      JObj [(''horizon'', JStr ''weekly''), (''market_id'', JStr ''w1'')],
      JObj [(''horizon'', JStr ''daily''), (''market_id'', JStr ''m1'')]] []
   = Inr [(''5m'', [JStr ''m2'', JStr ''m1'', JStr ''m1'']), (''30m'', [JStr ''w1''])]"
  by (simp add: group_entry_def append_market_def HORIZON_INTERVAL_MAP_def)

lemma demo_ordinal: "ymd2ord 2024 (Suc 0) (Suc 0) = 738886"
  by (simp add: ymd2ord_def days_before_year_def days_before_month_def is_leap_def)

lemma demo_date: "ord2ymd 738886 = (2024, 1, 1)"
  by (simp add: ord2ymd_def Let_def days_before_month_def is_leap_def)

lemma demo_iso_end:
  "to_iso (\<lambda>dt. 0) demo_end = Inr ''2024-01-01T12:00:00Z''"
proof -
  have "astimezone_utc (\<lambda>dt. 0) \<lparr>year = 2024, month = 1, day = 1, hour = 12, minute = 0,
          second = 0, microsecond = 0, utcoffset = Some 0\<rparr>
      = Inr \<lparr>year = 2024, month = 1, day = 1, hour = 12, minute = 0,
          second = 0, microsecond = 0, utcoffset = Some 0\<rparr>"
    by (simp add: astimezone_utc_def demo_ordinal demo_date Let_def)
  then have "astimezone_utc (\<lambda>dt. 0) demo_end = Inr demo_end" by (simp add: demo_end_def)
  from to_iso_eq[OF this] show ?thesis
    by (simp add: iso_seconds_def zpad_2024 zpad_small demo_end_def)
qed

lemma zpad_06: "zpad 2 6 = ''06''"
  by (simp add: zpad_def dec.simps[of 6] digit_char_def)

lemma demo_iso_start:
  "to_iso (\<lambda>dt. 0) demo_start = Inr ''2024-01-01T06:00:00Z''"
proof -
  have "astimezone_utc (\<lambda>dt. 0) \<lparr>year = 2024, month = 1, day = 1, hour = 6, minute = 0,
          second = 0, microsecond = 0, utcoffset = Some 0\<rparr>
      = Inr \<lparr>year = 2024, month = 1, day = 1, hour = 6, minute = 0,
          second = 0, microsecond = 0, utcoffset = Some 0\<rparr>"
    by (simp add: astimezone_utc_def demo_ordinal demo_date Let_def)
  then have "astimezone_utc (\<lambda>dt. 0) demo_start = Inr demo_start" by (simp add: demo_start_def)
  from to_iso_eq[OF this] show ?thesis
    by (simp add: iso_seconds_def zpad_2024 zpad_small zpad_06 demo_start_def)
qed

lemma demo_lookup:
  "catalog_lookup demo_env demo_client demo_args1
     \<lparr>server = ok_response demo_catalog # script, sent = []\<rparr>
   = (Inr (demo_start,
          demo_end,
          demo_catalog),
      \<lparr>server = script, sent = [demo_catalog_request]\<rparr>)"
  by (simp add: catalog_lookup_def demo_env_def demo_args_def demo_args1_def demo_client_def
      ensure_datetime_def given_def fetch_market_catalog_def post_def scripted_def
      build_request_def list_field_def str_field_def ok_response_def post_result_def
      demo_catalog_def demo_catalog_request_def demo_start_def demo_end_def)

lemma demo_payload:
  "interval \<noteq> ''1d'' \<Longrightarrow>
   merged_payload demo_env demo_args1
     demo_start
     demo_end interval ids
   = Inr (req_json (demo_request interval ids))"
proof -
  assume i: "interval \<noteq> ''1d''"
  have l: "local_offset demo_env = (\<lambda>dt. 0)" by (simp add: demo_env_def)
  have b: "request_blocks demo_args1 interval = [JStr ''probabilities'']"
    using i by (simp add: request_blocks_def demo_args1_def demo_args_def)
  have p: "include_prices demo_args1 = False" by (simp add: demo_args1_def)
  show ?thesis
    unfolding merged_payload_def l demo_iso_start demo_iso_end b
    by (simp add: p demo_request_def)
qed

lemma demo_post:
  "post demo_env demo_client ''api_v1_merged'' (req_json (demo_request interval ids))
     \<lparr>server = ok_response (demo_rows v) # script, sent = log\<rparr>
   = (Inr (demo_rows v), \<lparr>server = script, sent = log @ [demo_request interval ids]\<rparr>)"
  by (simp add: post_def demo_env_def scripted_def ok_response_def post_result_def
      demo_rows_def build_request_def demo_client_def demo_request_def)

lemma demo_post_error:
  "post demo_env demo_client ''api_v1_merged'' (req_json (demo_request interval ids))
     \<lparr>server = \<lparr>resp_status = 500, resp_json = None, resp_text = ''down'',
                 http_error_msg = ''500 Server Error''\<rparr> # script, sent = log\<rparr>
   = (Inl (HTTPError ''500 Server Error | down''),
      \<lparr>server = script, sent = log @ [demo_request interval ids]\<rparr>)"
  by (simp add: post_def demo_env_def scripted_def post_result_def error_detail_def
      build_request_def demo_client_def demo_request_def)

lemma demo_merge:
  "merge_responses (demo_rows ''a'') (demo_rows ''b'')
   = Inr (JObj [(''probabilities'', JObj [(''rows'', JList [JStr ''a'', JStr ''b''])])])"
  by (simp add: merge_responses_def known_blocks_def merge_block_def merge_meta_def demo_rows_def)

lemma demo_frames:
  "response_to_frames demo_env (JObj [(''probabilities'', JObj [(''rows'', JList (x # xs))])])
   = Inr [(''probabilities'', JList (x # xs))]"
  by (simp add: response_to_frames_def known_blocks_def block_frame_def demo_env_def)

lemma demo_chunks_5m:
  "fetch_chunks demo_env demo_client demo_args1 demo_start demo_end ''5m''
     [[JStr ''m1''], [JStr ''m2'']] (JObj [])
     \<lparr>server = ok_response (demo_rows ''a'') # ok_response (demo_rows ''b'') # script, sent = log\<rparr>
   = (Inr (JObj [(''probabilities'', JObj [(''rows'', JList [JStr ''a'', JStr ''b''])])]),
      \<lparr>server = script,
       sent = log @ [demo_request ''5m'' [JStr ''m1''], demo_request ''5m'' [JStr ''m2'']]\<rparr>)"
  by (simp add: demo_payload demo_post demo_merge merge_responses_empty_destination)

lemma demo_chunks_30m:
  "fetch_chunks demo_env demo_client demo_args1 demo_start demo_end ''30m''
     [[JStr ''w1'']] (JObj [])
     \<lparr>server = ok_response (demo_rows ''c'') # script, sent = log\<rparr>
   = (Inr (demo_rows ''c''),
      \<lparr>server = script, sent = log @ [demo_request ''30m'' [JStr ''w1'']]\<rparr>)"
  by (simp add: demo_payload demo_post merge_responses_empty_destination)

lemma demo_intervals:
  "fetch_intervals demo_env demo_client demo_args1 demo_start demo_end (Suc (Suc 0))
     [(''5m'', [JStr ''m2'', JStr ''m1'', JStr ''m1'']), (''30m'', [JStr ''w1''])] [] []
     \<lparr>server = [ok_response (demo_rows ''a''), ok_response (demo_rows ''b''),
                 ok_response (demo_rows ''c'')], sent = log\<rparr>
   = (Inr ([(''5m'', JObj [(''probabilities'', JObj [(''rows'', JList [JStr ''a'', JStr ''b''])])]),
            (''30m'', demo_rows ''c'')],
           [(''probabilities_5m'', JList [JStr ''a'', JStr ''b'']),
            (''probabilities_30m'', JList [JStr ''c''])]),
      \<lparr>server = [],
       sent = log @ [demo_request ''5m'' [JStr ''m1''], demo_request ''5m'' [JStr ''m2''],
                    demo_request ''30m'' [JStr ''w1'']]\<rparr>)"
proof -
  have cs: "chunk_size demo_args1 = 1" by (simp add: demo_args1_def)
  have f30: "response_to_frames demo_env (demo_rows ''c'') = Inr [(''probabilities'', JList [JStr ''c''])]"
    unfolding demo_rows_def by (rule demo_frames)
  show ?thesis
    by (simp add: demo_sorted demo_sorted2 cs demo_chunks demo_chunks_5m demo_chunks_30m
        demo_frames f30 frame_key_def del: fetch_chunks.simps)
qed


lemma demo_run:
  "fetch_timeseries demo_env demo_client demo_args1
     \<lparr>server = [ok_response demo_catalog, ok_response (demo_rows ''a''),
                 ok_response (demo_rows ''b''), ok_response (demo_rows ''c'')], sent = []\<rparr>
   = (Inr \<lparr>catalog = JList demo_entries,
           responses =
             [(''5m'', JObj [(''probabilities'', JObj [(''rows'', JList [JStr ''a'', JStr ''b''])])]),
              (''30m'', demo_rows ''c'')],
           dataframes =
             [(''probabilities_5m'', JList [JStr ''a'', JStr ''b'']),
              (''probabilities_30m'', JList [JStr ''c''])]\<rparr>,
      \<lparr>server = [],
       sent = [demo_catalog_request, demo_request ''5m'' [JStr ''m1''],
               demo_request ''5m'' [JStr ''m2''], demo_request ''30m'' [JStr ''w1'']]\<rparr>)"
proof -
  have h: "horizons demo_args1 \<noteq> []" by (simp add: demo_args1_def demo_args_def)
  have g: "py_get demo_catalog ''markets'' (JList []) = Inr (JList demo_entries)"
    by (simp add: demo_catalog_def demo_entries_def)
  have gm: "group_markets demo_entries []
      = Inr [(''5m'', [JStr ''m2'', JStr ''m1'', JStr ''m1'']), (''30m'', [JStr ''w1''])]"
    unfolding demo_entries_def by (rule demo_groups)
  have t: "demo_entries \<noteq> []" by (simp add: demo_entries_def)
  note di = demo_intervals[of "[demo_catalog_request]"]
  show ?thesis
    unfolding fetch_timeseries_def
    by (simp add: h demo_lookup g t gm di del: fetch_intervals.simps)
qed

section \<open>Properties of fetching timeseries\<close>

text \<open>
  C4: with an empty \<^verbatim>\<open>horizons\<close> sequence the call fails with the ValueError of line 256
  (the spec's ValidationError), and the world is unchanged: no request was sent and the
  remote service is in the state it was in.
\<close>

theorem fetch_timeseries_no_horizons:
  "horizons args = [] \<Longrightarrow>
   fetch_timeseries env c args w
     = (Inl (ValueError ''At least one horizon must be provided''), w)"
  by (simp add: fetch_timeseries_def)

theorem fetch_timeseries_no_horizons_witness:
  "horizons (demo_args\<lparr>horizons := []\<rparr>) = []
   \<and> fetch_timeseries demo_env demo_client (demo_args\<lparr>horizons := []\<rparr>)
        \<lparr>server = [], sent = []\<rparr>
     = (Inl (ValueError ''At least one horizon must be provided''), \<lparr>server = [], sent = []\<rparr>)"
proof -
  have h: "horizons (demo_args\<lparr>horizons := []\<rparr>) = []" by simp
  show ?thesis
    using fetch_timeseries_no_horizons[OF h, of demo_env demo_client "\<lparr>server = [], sent = []\<rparr>"] h
    by simp
qed

text \<open>
  C2: when the catalog lookup returns a body whose \<^verbatim>\<open>markets\<close> entry is absent or an empty
  list, the call returns (it is not an error) a result with an empty catalog, no responses
  and no dataframes, and the only request sent is the catalog request.
\<close>

theorem fetch_timeseries_empty_catalog:
  assumes "horizons args \<noteq> []"
    and "catalog_lookup env c args w = (Inr (start_dt, end_dt, JObj kvs), w')"
    and "map_of kvs ''markets'' = None \<or> map_of kvs ''markets'' = Some (JList [])"
  shows "fetch_timeseries env c args w
           = (Inr \<lparr>catalog = JList [], responses = [], dataframes = []\<rparr>, w')
       \<and> (\<exists>rq. sent w' = sent w @ [rq]
              \<and> req_url rq = base_url c @ ''/api_v1_market_catalog'')"
proof
  obtain cat where cat: "py_get (JObj kvs) ''markets'' (JList []) = Inr cat" "\<not> truthy cat"
    using assms(3) by auto
  show "fetch_timeseries env c args w
           = (Inr \<lparr>catalog = JList [], responses = [], dataframes = []\<rparr>, w')"
    using assms(1,2) cat by (simp add: fetch_timeseries_def)
  show "\<exists>rq. sent w' = sent w @ [rq] \<and> req_url rq = base_url c @ ''/api_v1_market_catalog''"
    using catalog_lookup_sent[OF assms(2)] build_request_url(1) by auto
qed

lemma demo_catalog_lookup:
  "catalog_lookup demo_env demo_client demo_args \<lparr>server = [ok_response (JObj [])], sent = []\<rparr>
   = (Inr (\<lparr>year = 2024, month = 1, day = 1, hour = 6, minute = 0, second = 0,
                 microsecond = 0, utcoffset = Some 0\<rparr>,
          \<lparr>year = 2024, month = 1, day = 1, hour = 12, minute = 0, second = 0,
                 microsecond = 0, utcoffset = Some 0\<rparr>,
          JObj []),
      \<lparr>server = [],
       sent = [\<lparr>req_url = ''https://api.example/api_v1_market_catalog'',
                req_json = JObj [(''assets'', JList [JStr ''BTC'']),
                                 (''horizons'', JList [JStr ''daily''])],
                req_timeout = 60\<rparr>]\<rparr>)"
  by (simp add: catalog_lookup_def demo_env_def demo_args_def demo_client_def ensure_datetime_def
      given_def fetch_market_catalog_def post_def scripted_def build_request_def
      list_field_def str_field_def ok_response_def post_result_def)

theorem fetch_timeseries_empty_catalog_witness:
  "fetch_timeseries demo_env demo_client demo_args
      \<lparr>server = [ok_response (JObj [])], sent = []\<rparr>
   = (Inr \<lparr>catalog = JList [], responses = [], dataframes = []\<rparr>,
      \<lparr>server = [],
       sent = [\<lparr>req_url = ''https://api.example/api_v1_market_catalog'',
                req_json = JObj [(''assets'', JList [JStr ''BTC'']),
                                 (''horizons'', JList [JStr ''daily''])],
                req_timeout = 60\<rparr>]\<rparr>)"
proof -
  have h1: "horizons demo_args \<noteq> []" by (simp add: demo_args_def)
  have h3: "map_of ([] :: (string \<times> json) list) ''markets'' = None
      \<or> map_of ([] :: (string \<times> json) list) ''markets'' = Some (JList [])" by simp
  show ?thesis
    using fetch_timeseries_empty_catalog[OF h1 demo_catalog_lookup h3] by blast
qed

end
